theory Spec2Isabelle
  imports Main "HOL-Library.Word"
begin

section \<open>The icon cache of user_handler.go\<close>

text \<open>
  The development embeds the icon handling of \<^verbatim>\<open>go/user_handler.go\<close>: the in-memory
  hash index \<^verbatim>\<open>iconHashCache\<close>, the icon files under \<^verbatim>\<open>iconCacheDir\<close>, the handlers
  \<^verbatim>\<open>getIconHandler\<close> and \<^verbatim>\<open>postIconHandler\<close>, \<^verbatim>\<open>fillUsersResponse\<close> and
  \<^verbatim>\<open>clearIconCache\<close>.

  Conventions of the model:
  \<^item> Go's \<^verbatim>\<open>int64\<close> is a 64 bit word, \<^verbatim>\<open>[]byte\<close> a list of 8 bit words.
  \<^item> \<^verbatim>\<open>sha256.Sum256\<close> belongs to the standard library; every function that hashes
    takes it as the parameter \<open>Sum256\<close>, of a type whose values are 256 bits wide.
    The formatting \<^verbatim>\<open>fmt.Sprintf("%x", hash)\<close> is modelled in full.
  \<^item> The tables \<^verbatim>\<open>users\<close>, \<^verbatim>\<open>themes\<close> and \<^verbatim>\<open>icons\<close> are lists of rows; a query
    returns the matching rows in table order, \<^verbatim>\<open>GetContext\<close> takes the first one.
  \<^item> The file system is a map from paths to contents. \<^verbatim>\<open>getIconPath\<close> formats
    \<^verbatim>\<open>"%s/%d.jpg"\<close>, which names one file per user id and never the fallback image;
    the model keeps that much of a path and nothing else.
  \<^item> What the environment decides (a failing database call, a failing file system
    call) is an input of the model, the record \<open>faults\<close>, so that every error branch
    of the source is a branch of the model.
  \<^item> \<^verbatim>\<open>c.File\<close> of echo hands the open file to \<^verbatim>\<open>http.ServeContent\<close> of the
    standard library, which evaluates the conditional headers and the range header of
    the request before it sends the content. Its evaluation of \<^verbatim>\<open>If-None-Match\<close>, the
    header the handler reads too, is modelled in full; what the other headers of the
    request amount to is an input, carried by \<open>faults\<close> as well.
  \<^item> Each database statement, each file system call and each write of the hash index
    appends an event to the field \<open>events\<close> of the state, in program order.
  \<^item> Requests run one after the other; the locking of \<^verbatim>\<open>iconHashCacheMu\<close> and the
    interleaving of goroutines are outside the model.
\<close>

subsection \<open>Data\<close>

type_synonym byte = "8 word"
type_synonym bytes = "byte list"
type_synonym int64 = "64 word"
type_synonym sum256 = "bytes \<Rightarrow> 256 word"

record UserModel =
  um_ID :: int64
  um_Name :: string
  um_DisplayName :: string
  um_Description :: string
  um_HashedPassword :: string

record Theme =
  th_ID :: int64
  th_DarkMode :: bool

record User =
  u_ID :: int64
  u_Name :: string
  u_DisplayName :: string
  u_Description :: string
  u_Theme :: Theme
  u_IconHash :: string

record ThemeModel =
  tm_ID :: int64
  tm_UserID :: int64
  tm_DarkMode :: bool

record IconModel =
  im_UserID :: int64
  im_Image :: bytes

text \<open>A row of the table \<^verbatim>\<open>icons\<close>: \<^verbatim>\<open>id\<close>, \<^verbatim>\<open>user_id\<close>, \<^verbatim>\<open>image\<close>.\<close>

record icon_row =
  icon_id :: int64
  icon_user_id :: int64
  icon_image :: bytes

datatype path = CachePath int64 | FallbackPath

datatype event =
    BeginTx
  | Commit
  | SelectUserByName string
  | SelectIconByUser int64
  | SelectIconsIn "int64 list"
  | SelectThemesIn "int64 list"
  | DeleteIcons int64
  | InsertIcon int64 bytes
  | Stat path
  | ReadFile path
  | WriteFile path bytes
  | ServeFile path
  | ReadDir
  | MkdirAll
  | HashSet int64 string
  | HashClear
  | LogWarn

record state =
  users_tbl :: "UserModel list"
  themes_tbl :: "ThemeModel list"
  icons_tbl :: "icon_row list"
  icons_next_id :: int64
  files :: "path \<rightharpoonup> bytes"
  iconHashCache :: "int64 \<rightharpoonup> string"
  fallbackImageHash :: string
  events :: "event list"

text \<open>
  The outcome of \<^verbatim>\<open>os.WriteFile\<close>, which opens the file with \<^verbatim>\<open>O_CREATE|O_TRUNC\<close>
  and then writes: it succeeds, or fails before the file is touched, or fails after a
  prefix of the data has been written.
\<close>

datatype wfault = WriteOk | WriteFailUntouched | WriteFailPartial nat

datatype readdir_result = ReadDirOk | ReadDirNotExist | ReadDirError

text \<open>
  What the header \<^verbatim>\<open>Range\<close> of the request (together with \<^verbatim>\<open>If-Range\<close>) selects of the
  content that \<^verbatim>\<open>http.ServeContent\<close> sends: nothing (no such header, or one that is
  ignored), one range given by its start and length, several ranges that are sent as
  one multipart body, or a range that cannot be satisfied.
\<close>

datatype range_outcome = NoRange | OneRange nat nat | ManyRanges bytes | BadRange

text \<open>
  The last three fields describe the request rather than the environment: whether its
  \<^verbatim>\<open>If-Match\<close> or \<^verbatim>\<open>If-Unmodified-Since\<close> fails on the file that is served, whether
  its \<^verbatim>\<open>If-Modified-Since\<close> names a time that is not before the file's modification
  time, and what its \<^verbatim>\<open>Range\<close> selects. The handlers read none of these headers;
  \<^verbatim>\<open>http.ServeContent\<close> does.
\<close>

record faults =
  begin_err :: bool
  users_err :: bool
  icons_err :: bool
  themes_err :: bool
  delete_err :: bool
  insert_err :: bool
  lastid_err :: bool
  commit_err :: bool
  stat_err :: "path \<Rightarrow> bool"
  read_err :: "path \<Rightarrow> bool"
  write_fault :: "path \<Rightarrow> wfault"
  readdir_fault :: readdir_result
  mkdir_err :: bool
  remove_err :: "path \<Rightarrow> bool"
  req_precondition_failed :: bool
  req_not_modified_since :: bool
  req_range :: range_outcome

datatype body = NoBody | Bytes bytes | Message string | IconID int64

record response =
  status :: nat
  headers :: "(string \<times> string) list"
  body :: body

subsection \<open>Formatting\<close>

definition hexdigit :: "nat \<Rightarrow> char" where
  "hexdigit n = ''0123456789abcdef'' ! (n mod 16)"

text \<open>\<^verbatim>\<open>fmt.Sprintf("%x", hash)\<close> for \<^verbatim>\<open>hash [32]byte\<close>: 64 hex digits, first byte first.\<close>

definition sprintf_x :: "256 word \<Rightarrow> string" where
  "sprintf_x hash = map (\<lambda>i. hexdigit (unat (take_bit 4 (drop_bit (4 * i) hash)))) (rev [0..<64])"

text \<open>\<^verbatim>\<open>fmt.Sprintf(`"%s"`, iconHash)\<close>.\<close>

definition quoted :: "string \<Rightarrow> string" where
  "quoted iconHash = CHR 0x22 # iconHash @ [CHR 0x22]"

subsection \<open>Primitives\<close>

definition emit :: "event \<Rightarrow> state \<Rightarrow> state" where
  "emit e s = s\<lparr>events := events s @ [e]\<rparr>"

definition fallbackImage :: path where
  "fallbackImage = FallbackPath"

definition getIconPath :: "int64 \<Rightarrow> path" where
  "getIconPath userID = CachePath userID"

definition getIconHash :: "int64 \<Rightarrow> state \<Rightarrow> string \<times> bool" where
  "getIconHash userID s =
     (case iconHashCache s userID of Some hash \<Rightarrow> (hash, True) | None \<Rightarrow> ([], False))"

definition setIconHash :: "int64 \<Rightarrow> string \<Rightarrow> state \<Rightarrow> state" where
  "setIconHash userID hash s =
     emit (HashSet userID hash) (s\<lparr>iconHashCache := (iconHashCache s)(userID \<mapsto> hash)\<rparr>)"

datatype stat_result = StatOk | StatNotExist | StatError

definition os_Stat :: "faults \<Rightarrow> path \<Rightarrow> state \<Rightarrow> stat_result \<times> state" where
  "os_Stat F p s =
     (if stat_err F p then StatError
      else if files s p = None then StatNotExist else StatOk,
      emit (Stat p) s)"

definition os_ReadFile :: "faults \<Rightarrow> path \<Rightarrow> state \<Rightarrow> bytes option \<times> state" where
  "os_ReadFile F p s = (if read_err F p then None else files s p, emit (ReadFile p) s)"

definition os_WriteFile :: "faults \<Rightarrow> path \<Rightarrow> bytes \<Rightarrow> state \<Rightarrow> bool \<times> state" where
  "os_WriteFile F p d s =
     (case write_fault F p of
        WriteOk \<Rightarrow> (True, emit (WriteFile p d) (s\<lparr>files := (files s)(p \<mapsto> d)\<rparr>))
      | WriteFailUntouched \<Rightarrow> (False, emit (WriteFile p d) s)
      | WriteFailPartial n \<Rightarrow>
          (False, emit (WriteFile p d) (s\<lparr>files := (files s)(p \<mapsto> take n d)\<rparr>)))"

definition HTTPError :: "nat \<Rightarrow> string \<Rightarrow> response" where
  "HTTPError code message = \<lparr>status = code, headers = [], body = Message message\<rparr>"

definition c_NoContent :: "nat \<Rightarrow> response" where
  "c_NoContent code = \<lparr>status = code, headers = [], body = NoBody\<rparr>"

definition c_Blob :: "(string \<times> string) list \<Rightarrow> nat \<Rightarrow> string \<Rightarrow> bytes \<Rightarrow> response" where
  "c_Blob hdrs code contentType b =
     \<lparr>status = code, headers = hdrs @ [(''Content-Type'', contentType)], body = Bytes b\<rparr>"

definition c_JSON :: "nat \<Rightarrow> body \<Rightarrow> response" where
  "c_JSON code v = \<lparr>status = code, headers = [], body = v\<rparr>"

subsection \<open>Serving a file\<close>

text \<open>
  The part of \<^verbatim>\<open>net/http\<close> that \<^verbatim>\<open>c.File\<close> runs into, after \<^verbatim>\<open>fs.go\<close> of the Go
  distribution. \<^verbatim>\<open>textproto.TrimString\<close> strips the ASCII white space at both ends.
\<close>

datatype condResult = condNone | condTrue | condFalse

definition isASCIISpace :: "char \<Rightarrow> bool" where
  "isASCIISpace b = (b = CHR '' '' \<or> b = CHR 0x09 \<or> b = CHR 0x0A \<or> b = CHR 0x0D)"

definition TrimString :: "string \<Rightarrow> string" where
  "TrimString s = rev (dropWhile isASCIISpace (rev (dropWhile isASCIISpace s)))"

text \<open>The characters that \<^verbatim>\<open>scanETag\<close> accepts between the quotes of an entity tag.\<close>

definition etagChar :: "char \<Rightarrow> bool" where
  "etagChar c = ((of_char c :: nat) = 0x21 \<or> (0x23 \<le> (of_char c :: nat) \<and> (of_char c :: nat) \<le> 0x7E)
     \<or> 0x80 \<le> (of_char c :: nat))"

text \<open>
  The loop of \<^verbatim>\<open>scanETag\<close> from the character after the opening quote: the text up to
  and with the closing quote, and what follows it.
\<close>

fun scanQuoted :: "string \<Rightarrow> (string \<times> string) option" where
  "scanQuoted [] = None"
| "scanQuoted (c # cs) =
     (if etagChar c then map_option (\<lambda>(e, remain). (c # e, remain)) (scanQuoted cs)
      else if c = CHR 0x22 then Some ([c], cs)
      else None)"

text \<open>\<^verbatim>\<open>scanETag\<close>; \<open>None\<close> stands for the pair of empty strings it returns on failure.\<close>

definition scanETag :: "string \<Rightarrow> (string \<times> string) option" where
  "scanETag s0 =
     (let s = TrimString s0;
          start = (if take 2 s = ''W/'' then 2 else 0 :: nat)
      in if length (drop start s) < 2 \<or> s ! start \<noteq> CHR 0x22 then None
         else map_option (\<lambda>(e, remain). (take (start + 1) s @ e, remain))
                (scanQuoted (drop (start + 1) s)))"

definition TrimPrefix :: "string \<Rightarrow> string \<Rightarrow> string" where
  "TrimPrefix s prefix = (if take (length prefix) s = prefix then drop (length prefix) s else s)"

definition etagWeakMatch :: "string \<Rightarrow> string \<Rightarrow> bool" where
  "etagWeakMatch a b = (TrimPrefix a ''W/'' = TrimPrefix b ''W/'')"

text \<open>
  The loop of \<^verbatim>\<open>checkIfNoneMatch\<close> over the value of the header: commas are skipped,
  \<^verbatim>\<open>*\<close> matches, each entity tag is compared weakly with the \<^verbatim>\<open>ETag\<close> of the response,
  and text that is not an entity tag ends the loop.
\<close>

function checkIfNoneMatch_loop :: "string \<Rightarrow> string \<Rightarrow> condResult" where
  "checkIfNoneMatch_loop buf0 etag =
     (case TrimString buf0 of
        [] \<Rightarrow> condTrue
      | c # rest \<Rightarrow>
          if c = CHR '','' then checkIfNoneMatch_loop rest etag
          else if c = CHR ''*'' then condFalse
          else (case scanETag (c # rest) of
                  None \<Rightarrow> condTrue
                | Some (e, remain) \<Rightarrow>
                    if etagWeakMatch e etag then condFalse
                    else checkIfNoneMatch_loop remain etag))"
  by pat_completeness auto
termination
proof (relation "measure (\<lambda>(buf, etag). length buf)")
  have trim: "length (TrimString s) \<le> length s" for s
  proof -
    have "length (dropWhile isASCIISpace (rev (dropWhile isASCIISpace s)))
            \<le> length (rev (dropWhile isASCIISpace s))"
      by (rule length_dropWhile_le)
    also have "\<dots> \<le> length s"
      by (simp add: length_dropWhile_le)
    finally show ?thesis by (simp add: TrimString_def)
  qed
  have quoted: "scanQuoted cs = Some (e, remain) \<Longrightarrow> length remain < length cs" for cs e remain
    by (induction cs arbitrary: e) (auto split: if_splits)
  have scan: "length remain < length s" if "scanETag s = Some (e, remain)" for s e remain
  proof -
    from that obtain n e' where "scanQuoted (drop n (TrimString s)) = Some (e', remain)"
      by (fastforce simp: scanETag_def Let_def split: if_splits)
    from quoted [OF this] have "length remain < length (TrimString s)"
      by simp
    with trim [of s] show ?thesis by simp
  qed
  show "wf (measure (\<lambda>(buf, etag). length buf))"
    by simp
  show "((rest, etag), (buf0, etag)) \<in> measure (\<lambda>(buf, etag). length buf)"
    if "TrimString buf0 = c # rest" for buf0 etag :: string and c rest
    using that trim [of buf0] by simp
  show "((remain, etag), (buf0, etag)) \<in> measure (\<lambda>(buf, etag). length buf)"
    if "TrimString buf0 = c # rest" and "scanETag (c # rest) = Some x2" and "(e, remain) = x2"
    for buf0 etag :: string and c rest x2 e remain
  proof -
    from that have "scanETag (c # rest) = Some (e, remain)" by simp
    from scan [OF this] that(1) trim [of buf0] show ?thesis by simp
  qed
qed

declare checkIfNoneMatch_loop.simps [simp del]

text \<open>\<^verbatim>\<open>checkIfNoneMatch\<close>, given the header of the request and the \<^verbatim>\<open>ETag\<close> that is set.\<close>

definition checkIfNoneMatch :: "string \<Rightarrow> string \<Rightarrow> condResult" where
  "checkIfNoneMatch inm etag = (if inm = [] then condNone else checkIfNoneMatch_loop inm etag)"

text \<open>
  \<^verbatim>\<open>http.ServeContent\<close> for a \<^verbatim>\<open>GET\<close>, with \<^verbatim>\<open>checkPreconditions\<close> unfolded: 412 when
  \<^verbatim>\<open>If-Match\<close> or \<^verbatim>\<open>If-Unmodified-Since\<close> fails; 304 when \<^verbatim>\<open>If-None-Match\<close> matches,
  or is absent while \<^verbatim>\<open>If-Modified-Since\<close> holds; then the content, whole with 200 or
  by ranges with 206, or 416. Of the headers the function adds itself
  (\<^verbatim>\<open>Last-Modified\<close>, \<^verbatim>\<open>Content-Type\<close>, \<^verbatim>\<open>Accept-Ranges\<close>, \<^verbatim>\<open>Content-Length\<close>,
  \<^verbatim>\<open>Content-Range\<close>) the model keeps none: \<open>headers\<close> holds what the handler has set.
\<close>

definition ServeContent :: "faults \<Rightarrow> string \<Rightarrow> (string \<times> string) list \<Rightarrow> bytes \<Rightarrow> response" where
  "ServeContent F ifNoneMatch hdrs content =
     (if req_precondition_failed F then \<lparr>status = 412, headers = hdrs, body = NoBody\<rparr>
      else let inm = checkIfNoneMatch ifNoneMatch
                       (case map_of hdrs ''ETag'' of Some etag \<Rightarrow> etag | None \<Rightarrow> [])
      in if inm = condFalse \<or> (inm = condNone \<and> req_not_modified_since F)
         then \<lparr>status = 304, headers = hdrs, body = NoBody\<rparr>
         else case req_range F of
           NoRange \<Rightarrow> \<lparr>status = 200, headers = hdrs, body = Bytes content\<rparr>
         | OneRange start len \<Rightarrow>
             \<lparr>status = 206, headers = hdrs, body = Bytes (take len (drop start content))\<rparr>
         | ManyRanges multipart \<Rightarrow> \<lparr>status = 206, headers = hdrs, body = Bytes multipart\<rparr>
         | BadRange \<Rightarrow> \<lparr>status = 416, headers = hdrs, body = Message ''invalid range''\<rparr>)"

text \<open>
  \<^verbatim>\<open>c.File(path)\<close> of a request whose \<^verbatim>\<open>If-None-Match\<close> is \<open>ifNoneMatch\<close>, under the
  headers \<open>hdrs\<close> the handler has set so far: it opens the file and passes it to
  \<^verbatim>\<open>http.ServeContent\<close>; when the file cannot be opened it answers 404.
\<close>

definition c_File ::
  "faults \<Rightarrow> string \<Rightarrow> (string \<times> string) list \<Rightarrow> path \<Rightarrow> state \<Rightarrow> response \<times> state" where
  "c_File F ifNoneMatch hdrs p s =
     (case (if read_err F p then None else files s p) of
        None \<Rightarrow> (\<lparr>status = 404, headers = hdrs, body = Message ''Not Found''\<rparr>, emit (ServeFile p) s)
      | Some d \<Rightarrow> (ServeContent F ifNoneMatch hdrs d, emit (ServeFile p) s))"

subsection \<open>getIconHandler\<close>

text \<open>Lines 197 to 206: the answer once the cached file is known to exist.\<close>

definition respondCachedFile ::
  "faults \<Rightarrow> bool \<Rightarrow> string \<Rightarrow> string \<Rightarrow> path \<Rightarrow> state \<Rightarrow> response \<times> state" where
  "respondCachedFile F hashCached iconHash ifNoneMatch iconPath s =
     (if hashCached \<and> ifNoneMatch = quoted iconHash then (c_NoContent 304, s)
      else c_File F ifNoneMatch (if hashCached then [(''ETag'', quoted iconHash)] else [])
             iconPath s)"

text \<open>Lines 213 to 218: the user has no row in \<^verbatim>\<open>icons\<close>.\<close>

definition respondFallback :: "faults \<Rightarrow> string \<Rightarrow> state \<Rightarrow> response \<times> state" where
  "respondFallback F ifNoneMatch s =
     (if ifNoneMatch = quoted (fallbackImageHash s) then (c_NoContent 304, s)
      else c_File F ifNoneMatch [(''ETag'', quoted (fallbackImageHash s))] fallbackImage s)"

text \<open>Lines 235 to 242: the answer from the image read from the database.\<close>

definition respondImage :: "string \<Rightarrow> string \<Rightarrow> bytes \<Rightarrow> response" where
  "respondImage iconHash ifNoneMatch img =
     (if ifNoneMatch = quoted iconHash then c_NoContent 304
      else c_Blob [(''ETag'', quoted iconHash)] 200 ''image/jpeg'' img)"

text \<open>\<^verbatim>\<open>SELECT * FROM users WHERE name = ?\<close> read with \<^verbatim>\<open>GetContext\<close>.\<close>

definition select_user :: "string \<Rightarrow> state \<Rightarrow> UserModel option" where
  "select_user username s = find (\<lambda>u. um_Name u = username) (users_tbl s)"

text \<open>\<^verbatim>\<open>SELECT image FROM icons WHERE user_id = ?\<close> read with \<^verbatim>\<open>GetContext\<close>.\<close>

definition select_icon :: "int64 \<Rightarrow> state \<Rightarrow> bytes option" where
  "select_icon userID s =
     map_option icon_image (find (\<lambda>r. icon_user_id r = userID) (icons_tbl s))"

text \<open>Lines 184 to 207: the file exists.\<close>

definition getIconFromFile ::
  "sum256 \<Rightarrow> faults \<Rightarrow> int64 \<Rightarrow> string \<Rightarrow> string \<Rightarrow> bool \<Rightarrow> state \<Rightarrow> response \<times> state" where
  "getIconFromFile Sum256 F userID ifNoneMatch iconHash hashCached s =
     (let iconPath = getIconPath userID in
      if \<not> hashCached then
        (case os_ReadFile F iconPath s of
           (Some imageData, s1) \<Rightarrow>
             (let iconHash' = sprintf_x (Sum256 imageData)
              in respondCachedFile F True iconHash' ifNoneMatch iconPath
                   (setIconHash userID iconHash' s1))
         | (None, s1) \<Rightarrow> respondCachedFile F hashCached iconHash ifNoneMatch iconPath s1)
      else respondCachedFile F hashCached iconHash ifNoneMatch iconPath s)"

text \<open>Lines 209 to 242: no file, the image comes from the database.\<close>

definition getIconFromDB ::
  "sum256 \<Rightarrow> faults \<Rightarrow> int64 \<Rightarrow> string \<Rightarrow> state \<Rightarrow> response \<times> state" where
  "getIconFromDB Sum256 F userID ifNoneMatch s =
     (let s1 = emit (SelectIconByUser userID) s in
      if icons_err F then (HTTPError 500 ''failed to get user icon'', s1)
      else case select_icon userID s1 of
        None \<Rightarrow> respondFallback F ifNoneMatch s1
      | Some img \<Rightarrow>
          (let (ok, s2) = os_WriteFile F (getIconPath userID) img s1;
               s3 = (if ok then s2 else emit LogWarn s2);
               iconHash = sprintf_x (Sum256 img);
               s4 = setIconHash userID iconHash s3
           in (respondImage iconHash ifNoneMatch img, s4)))"

definition getIconHandler ::
  "sum256 \<Rightarrow> faults \<Rightarrow> string \<Rightarrow> string \<Rightarrow> state \<Rightarrow> response \<times> state" where
  "getIconHandler Sum256 F username ifNoneMatch s =
     (let s1 = emit BeginTx s in
      if begin_err F then (HTTPError 500 ''failed to begin transaction'', s1)
      else let s2 = emit (SelectUserByName username) s1 in
      if users_err F then (HTTPError 500 ''failed to get user'', s2)
      else case select_user username s2 of
        None \<Rightarrow> (HTTPError 404 ''not found user that has the given username'', s2)
      | Some user \<Rightarrow>
          (let (iconHash, hashCached) = getIconHash (um_ID user) s2;
               (st, s3) = os_Stat F (getIconPath (um_ID user)) s2
           in if st = StatOk
              then getIconFromFile Sum256 F (um_ID user) ifNoneMatch iconHash hashCached s3
              else getIconFromDB Sum256 F (um_ID user) ifNoneMatch s3))"

subsection \<open>postIconHandler\<close>

text \<open>
  A value stored in the session is an \<^verbatim>\<open>interface{}\<close>; the handlers only ask whether
  it is an \<^verbatim>\<open>int64\<close>. \<open>None\<close> for the session itself is a failing \<^verbatim>\<open>session.Get\<close>.
\<close>

datatype sessval = Int64Val int64 | OtherVal

record session =
  sess_EXPIRES :: "sessval option"
  sess_USERID :: "sessval option"

datatype outcome = Responded response | Panic

text \<open>\<open>None\<close> is the \<^verbatim>\<open>nil\<close> error. The assertion \<^verbatim>\<open>sessionExpires.(int64)\<close> panics on a
  value of another type.\<close>

definition verifyUserSession :: "int64 \<Rightarrow> session option \<Rightarrow> outcome option" where
  "verifyUserSession now sess =
     (case sess of
        None \<Rightarrow> Some (Responded (HTTPError 401 ''failed to get session''))
      | Some se \<Rightarrow>
          (case sess_EXPIRES se of
             None \<Rightarrow> Some (Responded (HTTPError 403 ''failed to get EXPIRES value from session''))
           | Some sessionExpires \<Rightarrow>
               (case sess_USERID se of
                  Some (Int64Val userID) \<Rightarrow>
                    (case sessionExpires of
                       Int64Val expires \<Rightarrow>
                         if expires <s now
                         then Some (Responded (HTTPError 401 ''session has expired''))
                         else None
                     | OtherVal \<Rightarrow> Some Panic)
                | _ \<Rightarrow> Some (Responded (HTTPError 401 ''failed to get USERID value from session'')))))"

text \<open>
  The request body after \<^verbatim>\<open>json.NewDecoder(...).Decode(&req)\<close> into a
  \<^verbatim>\<open>*PostIconRequest\<close>: not JSON, the JSON value \<^verbatim>\<open>null\<close> (the pointer stays
  \<^verbatim>\<open>nil\<close>), or a request with its image.
\<close>

datatype decoded = Malformed | Null | Request bytes

text \<open>
  Lines 263 to 299, for the user id of the session and a body that was decoded. The
  statements of the transaction work on the rows \<open>tx\<close>; the table changes at the
  commit, and every earlier return rolls back.
\<close>

definition replaceIcon ::
  "sum256 \<Rightarrow> faults \<Rightarrow> int64 \<Rightarrow> decoded \<Rightarrow> state \<Rightarrow> outcome \<times> state" where
  "replaceIcon Sum256 F userID req s =
     (let s1 = emit BeginTx s in
      if begin_err F then (Responded (HTTPError 500 ''failed to begin transaction''), s1)
      else let s2 = emit (DeleteIcons userID) s1 in
      if delete_err F then (Responded (HTTPError 500 ''failed to delete old user icon''), s2)
      else let tx = filter (\<lambda>r. icon_user_id r \<noteq> userID) (icons_tbl s2) in
      case req of
        Request img \<Rightarrow>
          (let s3 = emit (InsertIcon userID img) s2 in
           if insert_err F then (Responded (HTTPError 500 ''failed to insert new user icon''), s3)
           else let iconID = icons_next_id s3;
                    tx' = tx @ [\<lparr>icon_id = iconID, icon_user_id = userID, icon_image = img\<rparr>] in
           if lastid_err F
           then (Responded (HTTPError 500 ''failed to get last inserted icon id''), s3)
           else let s4 = emit Commit s3 in
           if commit_err F then (Responded (HTTPError 500 ''failed to commit''), s4)
           else let s5 = s4\<lparr>icons_tbl := tx', icons_next_id := iconID + 1\<rparr>;
                    (ok, s6) = os_WriteFile F (getIconPath userID) img s5;
                    s7 = (if ok then s6 else emit LogWarn s6);
                    s8 = setIconHash userID (sprintf_x (Sum256 img)) s7
                in (Responded (c_JSON 201 (IconID iconID)), s8))
      | _ \<Rightarrow> (Panic, s2))"

definition postIconHandler ::
  "sum256 \<Rightarrow> faults \<Rightarrow> int64 \<Rightarrow> session option \<Rightarrow> decoded \<Rightarrow> state \<Rightarrow> outcome \<times> state" where
  "postIconHandler Sum256 F now sess req s =
     (case verifyUserSession now sess of
        Some err \<Rightarrow> (err, s)
      | None \<Rightarrow>
          (case sess of
             Some se \<Rightarrow>
               (case sess_USERID se of
                  Some (Int64Val userID) \<Rightarrow>
                    if req = Malformed
                    then (Responded (HTTPError 400 ''failed to decode the request body as json''), s)
                    else replaceIcon Sum256 F userID req s
                | _ \<Rightarrow> (Panic, s))
           | None \<Rightarrow> (Panic, s)))"

subsection \<open>fillUsersResponse\<close>

text \<open>\<^verbatim>\<open>sqlx.In\<close> refuses an empty slice.\<close>

definition sqlx_In :: "int64 list \<Rightarrow> string + int64 list" where
  "sqlx_In ids = (if ids = [] then Inl ''empty slice passed to in query'' else Inr ids)"

definition select_themes :: "int64 list \<Rightarrow> state \<Rightarrow> ThemeModel list" where
  "select_themes ids s = filter (\<lambda>t. tm_UserID t \<in> set ids) (themes_tbl s)"

text \<open>\<^verbatim>\<open>SELECT user_id, image FROM icons WHERE user_id IN (?)\<close>.\<close>

definition select_icons :: "int64 list \<Rightarrow> state \<Rightarrow> IconModel list" where
  "select_icons ids s =
     map (\<lambda>r. \<lparr>im_UserID = icon_user_id r, im_Image = icon_image r\<rparr>)
       (filter (\<lambda>r. icon_user_id r \<in> set ids) (icons_tbl s))"

text \<open>Lines 583 to 589.\<close>

fun collectUncached ::
  "int64 list \<Rightarrow> state \<Rightarrow> (int64 \<rightharpoonup> string) \<Rightarrow> int64 list \<Rightarrow> (int64 \<rightharpoonup> string) \<times> int64 list" where
  "collectUncached [] s iconHashMap uncachedUserIDs = (iconHashMap, uncachedUserIDs)"
| "collectUncached (userID # rest) s iconHashMap uncachedUserIDs =
     (case getIconHash userID s of
        (hash, ok) \<Rightarrow>
          if ok then collectUncached rest s (iconHashMap(userID \<mapsto> hash)) uncachedUserIDs
          else collectUncached rest s iconHashMap (uncachedUserIDs @ [userID]))"

text \<open>Lines 604 to 616. The result of \<^verbatim>\<open>os.WriteFile\<close> is dropped.\<close>

fun storeIcons ::
  "sum256 \<Rightarrow> faults \<Rightarrow> IconModel list \<Rightarrow> (int64 \<rightharpoonup> string) \<Rightarrow> int64 set \<Rightarrow> state
     \<Rightarrow> (int64 \<rightharpoonup> string) \<times> int64 set \<times> state" where
  "storeIcons Sum256 F [] iconHashMap iconUserIDSet s = (iconHashMap, iconUserIDSet, s)"
| "storeIcons Sum256 F (icon # rest) iconHashMap iconUserIDSet s =
     (let hashStr = sprintf_x (Sum256 (im_Image icon));
          s1 = setIconHash (im_UserID icon) hashStr s;
          iconPath = getIconPath (im_UserID icon);
          (st, s2) = os_Stat F iconPath s1;
          s3 = (if st = StatNotExist then snd (os_WriteFile F iconPath (im_Image icon) s2) else s2)
      in storeIcons Sum256 F rest (iconHashMap(im_UserID icon \<mapsto> hashStr))
           (insert (im_UserID icon) iconUserIDSet) s3)"

text \<open>Lines 619 to 623.\<close>

fun assignFallback ::
  "int64 list \<Rightarrow> int64 set \<Rightarrow> string \<Rightarrow> (int64 \<rightharpoonup> string) \<Rightarrow> (int64 \<rightharpoonup> string)" where
  "assignFallback [] iconUserIDSet fb iconHashMap = iconHashMap"
| "assignFallback (userID # rest) iconUserIDSet fb iconHashMap =
     assignFallback rest iconUserIDSet fb
       (if userID \<notin> iconUserIDSet then iconHashMap(userID \<mapsto> fb) else iconHashMap)"

text \<open>Lines 580 to 624: the icon hash of every collected user id.\<close>

definition fillIconHashes ::
  "sum256 \<Rightarrow> faults \<Rightarrow> int64 list \<Rightarrow> state \<Rightarrow> (string + (int64 \<rightharpoonup> string)) \<times> state" where
  "fillIconHashes Sum256 F userIDs s =
     (case collectUncached userIDs s Map.empty [] of
        (iconHashMap, uncachedUserIDs) \<Rightarrow>
          if length uncachedUserIDs > 0 then
            (case sqlx_In uncachedUserIDs of
               Inl e \<Rightarrow> (Inl e, s)
             | Inr args \<Rightarrow>
                 (let s1 = emit (SelectIconsIn args) s in
                  if icons_err F then (Inl ''failed to select icons'', s1)
                  else case storeIcons Sum256 F (select_icons args s1) iconHashMap {} s1 of
                    (iconHashMap', iconUserIDSet, s2) \<Rightarrow>
                      (Inr (assignFallback uncachedUserIDs iconUserIDSet
                              (fallbackImageHash s2) iconHashMap'), s2)))
          else (Inr iconHashMap, s))"

text \<open>Lines 575 to 578; \<^verbatim>\<open>themeMap[id]\<close> of an absent key is the zero value.\<close>

definition themeMap_of :: "ThemeModel list \<Rightarrow> (int64 \<rightharpoonup> ThemeModel)" where
  "themeMap_of themeModels = fold (\<lambda>t m. m(tm_UserID t \<mapsto> t)) themeModels Map.empty"

definition zeroTheme :: ThemeModel where
  "zeroTheme = \<lparr>tm_ID = 0, tm_UserID = 0, tm_DarkMode = False\<rparr>"

text \<open>Lines 628 to 646, the body of the loop.\<close>

definition buildUser ::
  "(int64 \<rightharpoonup> ThemeModel) \<Rightarrow> (int64 \<rightharpoonup> string) \<Rightarrow> string \<Rightarrow> UserModel \<Rightarrow> User" where
  "buildUser themeMap iconHashMap fb userModel =
     (let theme = (case themeMap (um_ID userModel) of Some t \<Rightarrow> t | None \<Rightarrow> zeroTheme);
          iconHash = (case iconHashMap (um_ID userModel) of Some h \<Rightarrow> h | None \<Rightarrow> []);
          iconHash' = (if iconHash = [] then fb else iconHash)
      in \<lparr>u_ID = um_ID userModel, u_Name = um_Name userModel,
          u_DisplayName = um_DisplayName userModel, u_Description = um_Description userModel,
          u_Theme = \<lparr>th_ID = tm_ID theme, th_DarkMode = tm_DarkMode theme\<rparr>,
          u_IconHash = iconHash'\<rparr>)"

text \<open>
  The user ids are collected in a Go map and read back in the map's iteration order,
  which Go leaves open; the model takes the ids in the order \<open>remdups\<close> gives.
\<close>

definition fillUsersResponse ::
  "sum256 \<Rightarrow> faults \<Rightarrow> UserModel list \<Rightarrow> state \<Rightarrow> (string + User list) \<times> state" where
  "fillUsersResponse Sum256 F userModels s =
     (if length userModels = 0 then (Inr [], s)
      else let userIDs = remdups (map um_ID userModels) in
      case sqlx_In userIDs of
        Inl e \<Rightarrow> (Inl e, s)
      | Inr args \<Rightarrow>
          (let s1 = emit (SelectThemesIn args) s in
           if themes_err F then (Inl ''failed to select themes'', s1)
           else let themeMap = themeMap_of (select_themes args s1) in
           case fillIconHashes Sum256 F userIDs s1 of
             (Inl e, s2) \<Rightarrow> (Inl e, s2)
           | (Inr iconHashMap, s2) \<Rightarrow>
               (Inr (map (buildUser themeMap iconHashMap (fallbackImageHash s2)) userModels), s2)))"

subsection \<open>initIconCache and clearIconCache\<close>

definition initIconCache :: "sum256 \<Rightarrow> faults \<Rightarrow> state \<Rightarrow> string option \<times> state" where
  "initIconCache Sum256 F s =
     (let s1 = emit MkdirAll s in
      if mkdir_err F then (Some ''mkdir failed'', s1)
      else case os_ReadFile F fallbackImage s1 of
        (None, s2) \<Rightarrow> (Some ''read failed'', s2)
      | (Some fallbackImageData, s2) \<Rightarrow>
          (None, s2\<lparr>fallbackImageHash := sprintf_x (Sum256 fallbackImageData)\<rparr>))"

text \<open>
  The entries of \<^verbatim>\<open>iconCacheDir\<close> are the files at the paths \<open>CachePath userID\<close>; each
  is removed unless its \<^verbatim>\<open>os.Remove\<close> fails, which the source does not look at.
\<close>

definition clearIconCache :: "faults \<Rightarrow> state \<Rightarrow> string option \<times> state" where
  "clearIconCache F s =
     (let s1 = emit HashClear (s\<lparr>iconHashCache := Map.empty\<rparr>);
          s2 = emit ReadDir s1
      in case readdir_fault F of
        ReadDirNotExist \<Rightarrow>
          (if mkdir_err F then Some ''mkdir failed'' else None, emit MkdirAll s2)
      | ReadDirError \<Rightarrow> (Some ''readdir failed'', s2)
      | ReadDirOk \<Rightarrow>
          (None, s2\<lparr>files := (\<lambda>p. case p of
                                   CachePath userID \<Rightarrow>
                                     if remove_err F p then files s2 p else None
                                 | FallbackPath \<Rightarrow> files s2 p)\<rparr>))"

subsection \<open>Notions used by the statements\<close>

text \<open>The events an operation appended, given the state before and the state after.\<close>

definition new_events :: "state \<Rightarrow> state \<Rightarrow> event list" where
  "new_events s s' = drop (length (events s)) (events s')"

text \<open>The statements that read the table \<^verbatim>\<open>icons\<close>.\<close>

fun is_icons_query :: "event \<Rightarrow> bool" where
  "is_icons_query (SelectIconByUser _) = True"
| "is_icons_query (SelectIconsIn _) = True"
| "is_icons_query _ = False"

definition uncached :: "state \<Rightarrow> int64 list \<Rightarrow> int64 list" where
  "uncached s userIDs = filter (\<lambda>userID. iconHashCache s userID = None) userIDs"

definition digests :: "sum256 \<Rightarrow> IconModel list \<Rightarrow> (int64 \<times> string) list" where
  "digests Sum256 icons = map (\<lambda>icon. (im_UserID icon, sprintf_x (Sum256 (im_Image icon)))) icons"

text \<open>One pass of the loop of lines 604 to 616, as a state transformer.\<close>

definition storeIcon :: "sum256 \<Rightarrow> faults \<Rightarrow> IconModel \<Rightarrow> state \<Rightarrow> state" where
  "storeIcon Sum256 F icon s =
     (let s2 = emit (Stat (getIconPath (im_UserID icon)))
                 (setIconHash (im_UserID icon) (sprintf_x (Sum256 (im_Image icon))) s)
      in if \<not> stat_err F (getIconPath (im_UserID icon)) \<and> files s (getIconPath (im_UserID icon)) = None
         then snd (os_WriteFile F (getIconPath (im_UserID icon)) (im_Image icon) s2) else s2)"

text \<open>The user id a session carries, when it carries one of type \<^verbatim>\<open>int64\<close>.\<close>

definition session_userID :: "session option \<Rightarrow> int64 option" where
  "session_userID sess =
     (case sess of Some se \<Rightarrow> (case sess_USERID se of Some (Int64Val userID) \<Rightarrow> Some userID | _ \<Rightarrow> None)
      | None \<Rightarrow> None)"

text \<open>
  The two cache tiers agree with the durable store on a user: a cached file holds the
  image that \<^verbatim>\<open>SELECT image FROM icons WHERE user_id = ?\<close> returns, and an entry of
  the hash index is the digest of that image.
\<close>

definition caches_agree :: "sum256 \<Rightarrow> state \<Rightarrow> int64 \<Rightarrow> bool" where
  "caches_agree Sum256 s userID =
     ((\<forall>b. files s (getIconPath userID) = Some b \<longrightarrow> select_icon userID s = Some b)
      \<and> (\<forall>h. iconHashCache s userID = Some h \<longrightarrow>
             (\<exists>b. select_icon userID s = Some b \<and> h = sprintf_x (Sum256 b))))"

text \<open>
  The request carries no conditional header other than \<^verbatim>\<open>If-None-Match\<close> and no
  \<^verbatim>\<open>Range\<close> that would change what \<^verbatim>\<open>http.ServeContent\<close> sends.
\<close>

definition only_if_none_match :: "faults \<Rightarrow> bool" where
  "only_if_none_match F =
     (\<not> req_precondition_failed F \<and> \<not> req_not_modified_since F \<and> req_range F = NoRange)"

text \<open>
  No entry of the hash index is stale: it is the digest of the bytes of the user's
  cached file, or of the image of a row of \<^verbatim>\<open>icons\<close> of that user.
\<close>

definition hash_index_fresh :: "sum256 \<Rightarrow> state \<Rightarrow> bool" where
  "hash_index_fresh Sum256 s =
     (\<forall>userID h. iconHashCache s userID = Some h \<longrightarrow>
        (\<exists>b. files s (getIconPath userID) = Some b \<and> h = sprintf_x (Sum256 b))
      \<or> (\<exists>r\<in>set (icons_tbl s). icon_user_id r = userID \<and> h = sprintf_x (Sum256 (icon_image r))))"

text \<open>
  The states the process runs through: it starts with an empty hash index, whatever
  the tables and the files hold, and then serves single fetches, bulk fills, uploads
  and cache clears, one after the other, under any behaviour of the environment.
\<close>

inductive reachable :: "sum256 \<Rightarrow> state \<Rightarrow> bool" for Sum256 :: sum256 where
  start: "iconHashCache s = Map.empty \<Longrightarrow> reachable Sum256 s"
| fetch: "reachable Sum256 s \<Longrightarrow>
     reachable Sum256 (snd (getIconHandler Sum256 F username ifNoneMatch s))"
| fill: "reachable Sum256 s \<Longrightarrow> reachable Sum256 (snd (fillUsersResponse Sum256 F userModels s))"
| upload: "reachable Sum256 s \<Longrightarrow>
     reachable Sum256 (snd (postIconHandler Sum256 F now sess req s))"
| clear: "reachable Sum256 s \<Longrightarrow> reachable Sum256 (snd (clearIconCache F s))"

subsection \<open>Example data\<close>

text \<open>
  A stand-in for \<^verbatim>\<open>sha256.Sum256\<close>, an environment in which nothing fails, and a
  state as \<^verbatim>\<open>initIconCache\<close> leaves it: alice (id 1) has uploaded an icon, bob (id 2)
  and carol (id 3) have not.
\<close>

definition demo_Sum256 :: sum256 where
  "demo_Sum256 b = foldr (\<lambda>x h. 256 * h + ucast x) b 1"

definition noFaults :: faults where
  "noFaults = \<lparr>begin_err = False, users_err = False, icons_err = False, themes_err = False,
     delete_err = False, insert_err = False, lastid_err = False, commit_err = False,
     stat_err = (\<lambda>_. False), read_err = (\<lambda>_. False), write_fault = (\<lambda>_. WriteOk),
     readdir_fault = ReadDirOk, mkdir_err = False, remove_err = (\<lambda>_. False),
     req_precondition_failed = False, req_not_modified_since = False, req_range = NoRange\<rparr>"

definition demo_user :: "int64 \<Rightarrow> string \<Rightarrow> UserModel" where
  "demo_user userID name = \<lparr>um_ID = userID, um_Name = name, um_DisplayName = name,
     um_Description = [], um_HashedPassword = []\<rparr>"

definition demo_state :: state where
  "demo_state = \<lparr>users_tbl = [demo_user 1 ''alice'', demo_user 2 ''bob'', demo_user 3 ''carol''],
     themes_tbl = [\<lparr>tm_ID = 1, tm_UserID = 1, tm_DarkMode = True\<rparr>],
     icons_tbl = [\<lparr>icon_id = 1, icon_user_id = 1, icon_image = [1, 2, 3]\<rparr>],
     icons_next_id = 2,
     files = [FallbackPath \<mapsto> [255, 216]],
     iconHashCache = Map.empty,
     fallbackImageHash = sprintf_x (demo_Sum256 [255, 216]),
     events = []\<rparr>"

text \<open>
  An environment in which every write of a file fails before the file is touched; a
  session of bob that has not expired at time 50; the state after alice's icon was
  fetched once; the state after bob has uploaded an icon while the writes failed; and
  a state as a restart of the process leaves it, with an empty hash index and a file
  in the cache directory that does not hold alice's current icon.
\<close>

definition failingWrites :: faults where
  "failingWrites = noFaults\<lparr>write_fault := (\<lambda>_. WriteFailUntouched)\<rparr>"

definition demo_session :: "session option" where
  "demo_session = Some \<lparr>sess_EXPIRES = Some (Int64Val 100), sess_USERID = Some (Int64Val 2)\<rparr>"

definition fetched_state :: state where
  "fetched_state = snd (getIconHandler demo_Sum256 noFaults ''alice'' [] demo_state)"

definition uploaded_state :: state where
  "uploaded_state =
     snd (postIconHandler demo_Sum256 failingWrites 50 demo_session (Request [4, 5]) demo_state)"

definition stale_state :: state where
  "stale_state = demo_state\<lparr>files := (files demo_state)(CachePath 1 \<mapsto> [9])\<rparr>"

text \<open>
  A session of alice, and the state after alice, whose icon had been fetched, has
  uploaded a new one while the writes failed: the cached file still holds the old icon.
\<close>

definition alice_session :: "session option" where
  "alice_session = Some \<lparr>sess_EXPIRES = Some (Int64Val 100), sess_USERID = Some (Int64Val 1)\<rparr>"

definition outdated_state :: state where
  "outdated_state =
     snd (postIconHandler demo_Sum256 failingWrites 50 alice_session (Request [4, 5]) fetched_state)"

text \<open>
  Environments in which one thing goes wrong: the transaction cannot be begun, the
  query on \<^verbatim>\<open>users\<close> or the query on \<^verbatim>\<open>icons\<close> fails, no file can be read. And requests with one more header:
  a \<^verbatim>\<open>Range\<close> that asks for the first byte, an \<^verbatim>\<open>If-Modified-Since\<close> that holds, an
  \<^verbatim>\<open>If-Match\<close> that fails.
\<close>

definition beginFails :: faults where
  "beginFails = noFaults\<lparr>begin_err := True\<rparr>"

definition usersFail :: faults where
  "usersFail = noFaults\<lparr>users_err := True\<rparr>"

definition iconsFail :: faults where
  "iconsFail = noFaults\<lparr>icons_err := True\<rparr>"

definition unreadableFiles :: faults where
  "unreadableFiles = noFaults\<lparr>read_err := (\<lambda>_. True)\<rparr>"

definition rangeRequest :: faults where
  "rangeRequest = noFaults\<lparr>req_range := OneRange 0 1\<rparr>"

definition modifiedSinceRequest :: faults where
  "modifiedSinceRequest = noFaults\<lparr>req_not_modified_since := True\<rparr>"

definition preconditionRequest :: faults where
  "preconditionRequest = noFaults\<lparr>req_precondition_failed := True\<rparr>"

section \<open>Properties\<close>

subsection \<open>Auxiliary facts\<close>

lemma length_sprintf_x: "length (sprintf_x w) = 64"
  by (simp add: sprintf_x_def)

lemma sprintf_x_nonempty [simp]: "sprintf_x w \<noteq> []"
  using length_sprintf_x [of w] by auto

lemma emit_fields [simp]:
  "users_tbl (emit e s) = users_tbl s"
  "themes_tbl (emit e s) = themes_tbl s"
  "icons_tbl (emit e s) = icons_tbl s"
  "icons_next_id (emit e s) = icons_next_id s"
  "files (emit e s) = files s"
  "iconHashCache (emit e s) = iconHashCache s"
  "fallbackImageHash (emit e s) = fallbackImageHash s"
  "events (emit e s) = events s @ [e]"
  by (simp_all add: emit_def)

lemma setIconHash_fields [simp]:
  "users_tbl (setIconHash u h s) = users_tbl s"
  "themes_tbl (setIconHash u h s) = themes_tbl s"
  "icons_tbl (setIconHash u h s) = icons_tbl s"
  "icons_next_id (setIconHash u h s) = icons_next_id s"
  "files (setIconHash u h s) = files s"
  "iconHashCache (setIconHash u h s) = (iconHashCache s)(u \<mapsto> h)"
  "fallbackImageHash (setIconHash u h s) = fallbackImageHash s"
  "events (setIconHash u h s) = events s @ [HashSet u h]"
  by (simp_all add: setIconHash_def)

lemma os_Stat_simps [simp]:
  "snd (os_Stat F p s) = emit (Stat p) s"
  "fst (os_Stat F p s) = (if stat_err F p then StatError
      else if files s p = None then StatNotExist else StatOk)"
  by (simp_all add: os_Stat_def)

lemma os_WriteFile_fields [simp]:
  "users_tbl (snd (os_WriteFile F p d s)) = users_tbl s"
  "themes_tbl (snd (os_WriteFile F p d s)) = themes_tbl s"
  "icons_tbl (snd (os_WriteFile F p d s)) = icons_tbl s"
  "icons_next_id (snd (os_WriteFile F p d s)) = icons_next_id s"
  "iconHashCache (snd (os_WriteFile F p d s)) = iconHashCache s"
  "fallbackImageHash (snd (os_WriteFile F p d s)) = fallbackImageHash s"
  "events (snd (os_WriteFile F p d s)) = events s @ [WriteFile p d]"
  by (simp_all add: os_WriteFile_def split: wfault.splits)

lemma os_WriteFile_files:
  "files (snd (os_WriteFile F p d s)) =
     (case write_fault F p of WriteOk \<Rightarrow> (files s)(p \<mapsto> d)
      | WriteFailUntouched \<Rightarrow> files s
      | WriteFailPartial n \<Rightarrow> (files s)(p \<mapsto> take n d))"
  by (simp add: os_WriteFile_def split: wfault.splits)

lemma os_WriteFile_fst: "fst (os_WriteFile F p d s) = (write_fault F p = WriteOk)"
  by (simp add: os_WriteFile_def split: wfault.splits)

lemma collectUncached_snd:
  "snd (collectUncached userIDs s m un) = un @ uncached s userIDs"
  by (induction userIDs arbitrary: m un) (auto simp: getIconHash_def uncached_def split: option.splits)

lemma collectUncached_fst:
  "fst (collectUncached userIDs s m un) userID =
     (if userID \<in> set userIDs \<and> iconHashCache s userID \<noteq> None then iconHashCache s userID else m userID)"
  by (induction userIDs arbitrary: m un) (auto simp: getIconHash_def split: option.splits)

lemma assignFallback_apply:
  "assignFallback userIDs S fb m userID =
     (if userID \<in> set userIDs \<and> userID \<notin> S then Some fb else m userID)"
  by (induction userIDs arbitrary: m) auto

lemma storeIcons_fst:
  "fst (storeIcons Sum256 F icons m S s) = m ++ map_of (rev (digests Sum256 icons))"
  by (induction icons arbitrary: m S s) (simp_all add: digests_def Let_def split_beta)

lemma storeIcons_set:
  "fst (snd (storeIcons Sum256 F icons m S s)) = S \<union> im_UserID ` set icons"
  by (induction icons arbitrary: m S s) (simp_all add: Let_def split_beta)

lemma storeIcons_hash:
  "iconHashCache (snd (snd (storeIcons Sum256 F icons m S s))) =
     iconHashCache s ++ map_of (rev (digests Sum256 icons))"
  by (induction icons arbitrary: m S s) (simp_all add: digests_def Let_def split_beta)

lemma storeIcons_frame:
  "users_tbl (snd (snd (storeIcons Sum256 F icons m S s))) = users_tbl s
   \<and> themes_tbl (snd (snd (storeIcons Sum256 F icons m S s))) = themes_tbl s
   \<and> icons_tbl (snd (snd (storeIcons Sum256 F icons m S s))) = icons_tbl s
   \<and> icons_next_id (snd (snd (storeIcons Sum256 F icons m S s))) = icons_next_id s
   \<and> fallbackImageHash (snd (snd (storeIcons Sum256 F icons m S s))) = fallbackImageHash s"
  by (induction icons arbitrary: m S s) (simp_all add: Let_def split_beta)

lemma storeIcons_Cons:
  "storeIcons Sum256 F (icon # icons) m S s =
     storeIcons Sum256 F icons (m(im_UserID icon \<mapsto> sprintf_x (Sum256 (im_Image icon))))
       (insert (im_UserID icon) S) (storeIcon Sum256 F icon s)"
  by (simp add: storeIcon_def Let_def split_beta)

lemma storeIcon_events:
  "\<exists>evs. events (storeIcon Sum256 F icon s) = events s @ evs \<and> filter is_icons_query evs = []"
  by (simp add: storeIcon_def Let_def)

lemma storeIcons_events_prefix:
  "\<exists>evs. events (snd (snd (storeIcons Sum256 F icons m S s))) = events s @ evs
     \<and> filter is_icons_query evs = []"
proof (induction icons arbitrary: m S s)
  case Nil
  then show ?case by simp
next
  case (Cons icon icons)
  obtain pre where pre: "events (storeIcon Sum256 F icon s) = events s @ pre"
    "filter is_icons_query pre = []"
    using storeIcon_events by blast
  obtain evs where evs: "events (snd (snd (storeIcons Sum256 F icons
       (m(im_UserID icon \<mapsto> sprintf_x (Sum256 (im_Image icon)))) (insert (im_UserID icon) S)
       (storeIcon Sum256 F icon s)))) = events (storeIcon Sum256 F icon s) @ evs"
    "filter is_icons_query evs = []"
    using Cons by blast
  show ?case
    unfolding storeIcons_Cons using pre evs by simp
qed

lemma fillIconHashes_events:
  "\<exists>evs. events (snd (fillIconHashes Sum256 F userIDs s)) = events s @ evs
     \<and> filter is_icons_query evs =
         (if uncached s userIDs = [] then [] else [SelectIconsIn (uncached s userIDs)])"
proof (cases "uncached s userIDs = []")
  case True
  then show ?thesis
    using collectUncached_snd [of userIDs s Map.empty "[]"]
    by (simp add: fillIconHashes_def split_beta)
next
  case False
  show ?thesis
  proof (cases "icons_err F")
    case True
    then show ?thesis
      using False collectUncached_snd [of userIDs s Map.empty "[]"]
      by (simp add: fillIconHashes_def split_beta sqlx_In_def)
  next
    case noerr: False
    obtain evs where evs: "events (snd (snd (storeIcons Sum256 F
        (select_icons (uncached s userIDs) (emit (SelectIconsIn (uncached s userIDs)) s))
        (fst (collectUncached userIDs s Map.empty [])) {}
        (emit (SelectIconsIn (uncached s userIDs)) s)))) =
          events (emit (SelectIconsIn (uncached s userIDs)) s) @ evs"
      "filter is_icons_query evs = []"
      using storeIcons_events_prefix by blast
    show ?thesis
      using False noerr evs collectUncached_snd [of userIDs s Map.empty "[]"]
      by (simp add: fillIconHashes_def split_beta sqlx_In_def Let_def)
  qed
qed

lemma digests_select_SomeD:
  assumes "map_of (rev (digests Sum256 (select_icons ids s))) u = Some d"
  shows "u \<in> set ids \<and> (\<exists>r\<in>set (icons_tbl s). icon_user_id r = u \<and> d = sprintf_x (Sum256 (icon_image r)))"
proof -
  from assms have "(u, d) \<in> set (digests Sum256 (select_icons ids s))"
    by (auto dest: map_of_SomeD)
  then show ?thesis
    by (auto simp: digests_def select_icons_def)
qed

lemma digests_select_dom:
  "(map_of (rev (digests Sum256 (select_icons ids s))) u = None) =
     (u \<notin> set ids \<or> u \<notin> icon_user_id ` set (icons_tbl s))"
proof -
  have "fst ` set (rev (digests Sum256 (select_icons ids s))) =
          {u. u \<in> set ids \<and> u \<in> icon_user_id ` set (icons_tbl s)}"
    by (auto simp: digests_def select_icons_def image_iff)
  then show ?thesis
    by (simp add: map_of_eq_None_iff)
qed

lemma digests_select_unique:
  assumes "distinct (map icon_user_id (icons_tbl s))"
    and "icon \<in> set (select_icons ids s)"
  shows "map_of (rev (digests Sum256 (select_icons ids s))) (im_UserID icon)
           = Some (sprintf_x (Sum256 (im_Image icon)))"
proof -
  have "map fst (digests Sum256 (select_icons ids s)) =
          filter (\<lambda>u. u \<in> set ids) (map icon_user_id (icons_tbl s))"
    by (simp add: digests_def select_icons_def comp_def filter_map)
  with assms(1) have "distinct (map fst (rev (digests Sum256 (select_icons ids s))))"
    by (simp add: rev_map [symmetric])
  moreover have "(im_UserID icon, sprintf_x (Sum256 (im_Image icon)))
       \<in> set (rev (digests Sum256 (select_icons ids s)))"
    using assms(2) by (auto simp: digests_def)
  ultimately show ?thesis
    by (rule map_of_is_SomeI)
qed

lemma select_user_emit [simp]: "select_user username (emit e s) = select_user username s"
  by (simp add: select_user_def)

lemma select_user_events [simp]: "select_user username (s\<lparr>events := evs\<rparr>) = select_user username s"
  by (simp add: select_user_def)

lemma select_icons_emit [simp]: "select_icons ids (emit e s) = select_icons ids s"
  by (simp add: select_icons_def)

lemma select_themes_emit [simp]: "select_themes ids (emit e s) = select_themes ids s"
  by (simp add: select_themes_def)

lemma uncached_emit [simp]: "uncached (emit e s) ids = uncached s ids"
  by (simp add: uncached_def)

text \<open>What the block computes when the icons query does not fail.\<close>

lemma fillIconHashes_result:
  assumes "\<not> icons_err F"
  shows "\<exists>M s'. fillIconHashes Sum256 F userIDs s = (Inr M, s')
     \<and> (\<forall>userID. M userID =
          (if userID \<in> set userIDs
           then Some (case iconHashCache s userID of
                        Some h \<Rightarrow> h
                      | None \<Rightarrow> (case map_of (rev (digests Sum256 (select_icons (uncached s userIDs) s))) userID of
                                   Some d \<Rightarrow> d | None \<Rightarrow> fallbackImageHash s))
           else None))
     \<and> iconHashCache s' =
         iconHashCache s ++ map_of (rev (digests Sum256 (select_icons (uncached s userIDs) s)))
     \<and> fallbackImageHash s' = fallbackImageHash s
     \<and> icons_tbl s' = icons_tbl s \<and> users_tbl s' = users_tbl s \<and> themes_tbl s' = themes_tbl s"
proof (cases "uncached s userIDs = []")
  case True
  have none: "\<And>u. u \<in> set userIDs \<Longrightarrow> iconHashCache s u \<noteq> None"
    using True by (auto simp: uncached_def filter_empty_conv)
  show ?thesis
    using True collectUncached_snd [of userIDs s Map.empty "[]"] none
    by (fastforce simp: fillIconHashes_def split_beta collectUncached_fst select_icons_def digests_def)
next
  case False
  let ?un = "uncached s userIDs"
  let ?s1 = "emit (SelectIconsIn ?un) s"
  let ?m0 = "fst (collectUncached userIDs s Map.empty [])"
  let ?R = "storeIcons Sum256 F (select_icons ?un s) ?m0 {} ?s1"
  let ?D = "map_of (rev (digests Sum256 (select_icons ?un s)))"
  have eq: "fillIconHashes Sum256 F userIDs s =
     (Inr (assignFallback ?un (fst (snd ?R)) (fallbackImageHash (snd (snd ?R))) (fst ?R)), snd (snd ?R))"
    using False assms collectUncached_snd [of userIDs s Map.empty "[]"]
    by (simp add: fillIconHashes_def split_beta sqlx_In_def Let_def)
  have fr: "fallbackImageHash (snd (snd ?R)) = fallbackImageHash s"
    "icons_tbl (snd (snd ?R)) = icons_tbl s" "users_tbl (snd (snd ?R)) = users_tbl s"
    "themes_tbl (snd (snd ?R)) = themes_tbl s"
    using storeIcons_frame [of Sum256 F "select_icons ?un s" ?m0 "{}" ?s1] by simp_all
  have hash: "iconHashCache (snd (snd ?R)) = iconHashCache s ++ ?D"
    by (simp add: storeIcons_hash)
  have mem: "(u \<in> set ?un) = (u \<in> set userIDs \<and> iconHashCache s u = None)" for u
    by (simp add: uncached_def)
  have M: "assignFallback ?un (fst (snd ?R)) (fallbackImageHash (snd (snd ?R))) (fst ?R) userID =
          (if userID \<in> set userIDs
           then Some (case iconHashCache s userID of
                        Some h \<Rightarrow> h
                      | None \<Rightarrow> (case ?D userID of Some d \<Rightarrow> d | None \<Rightarrow> fallbackImageHash s))
           else None)" for userID
  proof (cases "?D userID")
    case None
    then have "userID \<notin> im_UserID ` set (select_icons ?un s)"
      by (auto simp: map_of_eq_None_iff digests_def image_iff)
    with None show ?thesis
      by (auto simp: assignFallback_apply storeIcons_fst storeIcons_set fr map_add_def
            collectUncached_fst mem split: option.splits)
  next
    case (Some d)
    then have "userID \<in> set ?un" and "userID \<in> im_UserID ` set (select_icons ?un s)"
      using digests_select_SomeD [OF Some]
      by (auto simp: select_icons_def image_iff)
    with Some show ?thesis
      by (auto simp: assignFallback_apply storeIcons_fst storeIcons_set fr map_add_def
            collectUncached_fst mem split: option.splits)
  qed
  show ?thesis
    unfolding eq using M hash fr by simp
qed

lemma fillUsersResponse_events:
  assumes "\<not> themes_err F"
  shows "\<exists>evs. events (snd (fillUsersResponse Sum256 F userModels s)) = events s @ evs
     \<and> filter is_icons_query evs =
         (if uncached s (remdups (map um_ID userModels)) = [] then []
          else [SelectIconsIn (uncached s (remdups (map um_ID userModels)))])"
proof (cases "userModels = []")
  case True
  then show ?thesis
    by (simp add: fillUsersResponse_def uncached_def)
next
  case False
  let ?ids = "remdups (map um_ID userModels)"
  let ?s1 = "emit (SelectThemesIn ?ids) s"
  obtain evs where evs: "events (snd (fillIconHashes Sum256 F ?ids ?s1)) = events ?s1 @ evs"
    "filter is_icons_query evs =
       (if uncached ?s1 ?ids = [] then [] else [SelectIconsIn (uncached ?s1 ?ids)])"
    using fillIconHashes_events by blast
  have "snd (fillUsersResponse Sum256 F userModels s) = snd (fillIconHashes Sum256 F ?ids ?s1)"
    using False assms
    by (simp add: fillUsersResponse_def sqlx_In_def Let_def split: prod.splits sum.splits)
  with evs show ?thesis by simp
qed

lemma uncached_empty_iff:
  "(uncached s userIDs = []) = (\<forall>userID\<in>set userIDs. iconHashCache s userID \<noteq> None)"
  by (auto simp: uncached_def filter_empty_conv)

lemma storeIcon_fields [simp]:
  "users_tbl (storeIcon Sum256 F icon s) = users_tbl s"
  "themes_tbl (storeIcon Sum256 F icon s) = themes_tbl s"
  "icons_tbl (storeIcon Sum256 F icon s) = icons_tbl s"
  "icons_next_id (storeIcon Sum256 F icon s) = icons_next_id s"
  "fallbackImageHash (storeIcon Sum256 F icon s) = fallbackImageHash s"
  "iconHashCache (storeIcon Sum256 F icon s) =
     (iconHashCache s)(im_UserID icon \<mapsto> sprintf_x (Sum256 (im_Image icon)))"
  by (simp_all add: storeIcon_def Let_def)

lemma storeIcon_files_existing:
  "files s p \<noteq> None \<Longrightarrow> files (storeIcon Sum256 F icon s) p = files s p"
  by (auto simp: storeIcon_def Let_def os_WriteFile_files split: wfault.splits)

lemma storeIcon_files_other:
  "p \<noteq> getIconPath (im_UserID icon) \<Longrightarrow> files (storeIcon Sum256 F icon s) p = files s p"
  by (auto simp: storeIcon_def Let_def os_WriteFile_files split: wfault.splits)

lemma storeIcon_files_written:
  "files s (getIconPath (im_UserID icon)) = None \<Longrightarrow> \<not> stat_err F (getIconPath (im_UserID icon))
     \<Longrightarrow> write_fault F (getIconPath (im_UserID icon)) = WriteOk
     \<Longrightarrow> files (storeIcon Sum256 F icon s) (getIconPath (im_UserID icon)) = Some (im_Image icon)"
  by (auto simp: storeIcon_def Let_def os_WriteFile_files)

lemma storeIcons_files_existing:
  "files s p \<noteq> None \<Longrightarrow> files (snd (snd (storeIcons Sum256 F icons m S s))) p = files s p"
proof (induction icons arbitrary: m S s)
  case Nil
  then show ?case by simp
next
  case (Cons icon icons)
  have "files (storeIcon Sum256 F icon s) p = files s p"
    using Cons.prems by (rule storeIcon_files_existing)
  with Cons show ?case
    unfolding storeIcons_Cons by simp
qed

lemma storeIcons_files_written:
  assumes "icon \<in> set icons" and "distinct (map im_UserID icons)"
    and "files s (getIconPath (im_UserID icon)) = None"
    and "\<not> stat_err F (getIconPath (im_UserID icon))"
    and "write_fault F (getIconPath (im_UserID icon)) = WriteOk"
  shows "files (snd (snd (storeIcons Sum256 F icons m S s))) (getIconPath (im_UserID icon))
           = Some (im_Image icon)"
  using assms
proof (induction icons arbitrary: m S s)
  case Nil
  then show ?case by simp
next
  case (Cons a icons)
  show ?case
  proof (cases "a = icon")
    case True
    have w: "files (storeIcon Sum256 F icon s) (getIconPath (im_UserID icon)) = Some (im_Image icon)"
      using Cons.prems by (auto intro: storeIcon_files_written)
    then have "files (storeIcon Sum256 F icon s) (getIconPath (im_UserID icon)) \<noteq> None"
      by simp
    from storeIcons_files_existing [OF this] w True show ?thesis
      unfolding storeIcons_Cons by simp
  next
    case False
    with Cons.prems have mem: "icon \<in> set icons" and ne: "im_UserID a \<noteq> im_UserID icon"
      by auto
    have "files (storeIcon Sum256 F a s) (getIconPath (im_UserID icon)) = None"
      using ne Cons.prems(3) by (simp add: storeIcon_files_other getIconPath_def)
    with Cons.IH [OF mem] Cons.prems show ?thesis
      unfolding storeIcons_Cons by simp
  qed
qed

lemma select_icons_distinct:
  "distinct (map icon_user_id (icons_tbl s)) \<Longrightarrow> distinct (map im_UserID (select_icons ids s))"
  by (simp add: select_icons_def comp_def distinct_map_filter)

lemma select_icons_mem:
  "(icon \<in> set (select_icons ids s)) =
     (im_UserID icon \<in> set ids \<and>
      (\<exists>r\<in>set (icons_tbl s). icon_user_id r = im_UserID icon \<and> icon_image r = im_Image icon))"
  by (auto simp: select_icons_def image_iff)

lemma fillIconHashes_state:
  assumes "\<not> icons_err F" and "uncached s userIDs \<noteq> []"
  shows "snd (fillIconHashes Sum256 F userIDs s) =
     snd (snd (storeIcons Sum256 F (select_icons (uncached s userIDs) s)
        (fst (collectUncached userIDs s Map.empty [])) {}
        (emit (SelectIconsIn (uncached s userIDs)) s)))"
  using assms collectUncached_snd [of userIDs s Map.empty "[]"]
  by (simp add: fillIconHashes_def split_beta sqlx_In_def Let_def)

lemma buildUser_fields [simp]:
  "u_ID (buildUser themeMap iconHashMap fb userModel) = um_ID userModel"
  "u_IconHash (buildUser themeMap iconHashMap fb userModel) =
     (case iconHashMap (um_ID userModel) of
        Some h \<Rightarrow> if h = [] then fb else h | None \<Rightarrow> fb)"
  by (simp_all add: buildUser_def Let_def split: option.splits)

lemma fillUsersResponse_result:
  assumes "\<not> themes_err F" and "\<not> icons_err F" and "userModels \<noteq> []"
  shows "\<exists>M s0. fillIconHashes Sum256 F (remdups (map um_ID userModels))
                  (emit (SelectThemesIn (remdups (map um_ID userModels))) s) = (Inr M, s0)
     \<and> fillUsersResponse Sum256 F userModels s =
         (Inr (map (buildUser
                 (themeMap_of (select_themes (remdups (map um_ID userModels)) s))
                 M (fallbackImageHash s)) userModels), s0)"
proof -
  let ?ids = "remdups (map um_ID userModels)"
  obtain M s0 where r: "fillIconHashes Sum256 F ?ids (emit (SelectThemesIn ?ids) s) = (Inr M, s0)"
    and fb: "fallbackImageHash s0 = fallbackImageHash (emit (SelectThemesIn ?ids) s)"
    using fillIconHashes_result [OF assms(2), of Sum256 ?ids "emit (SelectThemesIn ?ids) s"]
    by blast
  show ?thesis
    using assms r fb
    by (simp add: fillUsersResponse_def sqlx_In_def Let_def)
qed

lemma postIconHandler_cases:
  "postIconHandler Sum256 F now sess req s =
     (case verifyUserSession now sess of
        Some err \<Rightarrow> (err, s)
      | None \<Rightarrow>
          (case session_userID sess of
             Some userID \<Rightarrow>
               if req = Malformed
               then (Responded (HTTPError 400 ''failed to decode the request body as json''), s)
               else replaceIcon Sum256 F userID req s
           | None \<Rightarrow> (Panic, s)))"
  by (simp add: postIconHandler_def session_userID_def split: option.splits sessval.splits)

lemma find_after_delete:
  "find (\<lambda>r. icon_user_id r = u) (filter (\<lambda>r. icon_user_id r \<noteq> u) xs @ [x]) =
     (if icon_user_id x = u then Some x else None)"
  by (induction xs) auto

lemma replaceIcon_success:
  assumes "replaceIcon Sum256 F userID req s = (Responded r, s')" and "status r = 201"
  shows "\<exists>img. req = Request img
     \<and> new_events s s' =
         [BeginTx, DeleteIcons userID, InsertIcon userID img, Commit,
          WriteFile (getIconPath userID) img]
         @ (if write_fault F (getIconPath userID) = WriteOk then [] else [LogWarn])
         @ [HashSet userID (sprintf_x (Sum256 img))]
     \<and> iconHashCache s' userID = Some (sprintf_x (Sum256 img))
     \<and> select_icon userID s' = Some img"
  using assms
  apply (cases req)
    apply (simp_all add: replaceIcon_def Let_def split: if_splits)
    apply (auto simp: HTTPError_def)[2]
  apply (auto simp: HTTPError_def c_JSON_def split_beta os_WriteFile_fst new_events_def select_icon_def
      os_WriteFile_def emit_def setIconHash_def find_after_delete split: wfault.splits)
  done

lemma replaceIcon_failure:
  assumes "replaceIcon Sum256 F userID req s = (out, s')"
    and "\<forall>r. out = Responded r \<longrightarrow> status r \<noteq> 201"
  shows "icons_tbl s' = icons_tbl s \<and> files s' = files s \<and> iconHashCache s' = iconHashCache s"
  using assms
  apply (cases req)
    apply (simp_all add: replaceIcon_def Let_def split: if_splits)
    apply (auto simp: HTTPError_def c_JSON_def split_beta)
  done

lemma verifyUserSession_not_201:
  "verifyUserSession now sess = Some (Responded r) \<Longrightarrow> status r \<noteq> 201"
  by (auto simp: verifyUserSession_def HTTPError_def split: option.splits sessval.splits if_splits)

lemma postIconHandler_success:
  assumes a: "postIconHandler Sum256 F now sess req s = (Responded r, s')" and b: "status r = 201"
  shows "\<exists>userID img. session_userID sess = Some userID \<and> req = Request img
         \<and> new_events s s' =
             [BeginTx, DeleteIcons userID, InsertIcon userID img, Commit,
              WriteFile (getIconPath userID) img]
             @ (if write_fault F (getIconPath userID) = WriteOk then [] else [LogWarn])
             @ [HashSet userID (sprintf_x (Sum256 img))]
         \<and> iconHashCache s' userID = Some (sprintf_x (Sum256 img))
         \<and> select_icon userID s' = Some img"
proof (cases "verifyUserSession now sess")
  case (Some err)
  with a b verifyUserSession_not_201 [of now sess r] show ?thesis
    by (auto simp: postIconHandler_cases)
next
  case None
  show ?thesis
  proof (cases "session_userID sess")
    case n: None
    with None a show ?thesis by (simp add: postIconHandler_cases)
  next
    case (Some userID)
    with None a b have "replaceIcon Sum256 F userID req s = (Responded r, s')"
      by (auto simp: postIconHandler_cases HTTPError_def split: if_splits)
    from replaceIcon_success [OF this b] Some show ?thesis by simp
  qed
qed

lemma postIconHandler_failure:
  assumes a: "postIconHandler Sum256 F now sess req s = (out, s')"
    and b: "\<forall>r. out = Responded r \<longrightarrow> status r \<noteq> 201"
  shows "icons_tbl s' = icons_tbl s \<and> files s' = files s \<and> iconHashCache s' = iconHashCache s"
proof (cases "verifyUserSession now sess")
  case (Some err)
  with a show ?thesis by (auto simp: postIconHandler_cases)
next
  case None
  show ?thesis
  proof (cases "session_userID sess")
    case n: None
    with None a show ?thesis by (auto simp: postIconHandler_cases)
  next
    case (Some userID)
    show ?thesis
    proof (cases "req = Malformed")
      case True
      with None Some a show ?thesis by (auto simp: postIconHandler_cases)
    next
      case False
      with None Some a have "replaceIcon Sum256 F userID req s = (out, s')"
        by (auto simp: postIconHandler_cases)
      from replaceIcon_failure [OF this b] show ?thesis by simp
    qed
  qed
qed

lemma ServeContent_write_fault [simp]:
  "ServeContent (F\<lparr>write_fault := w\<rparr>) v hdrs d = ServeContent F v hdrs d"
  by (simp add: ServeContent_def Let_def cong del: if_weak_cong)











lemma select_icon_events [simp]: "select_icon u (s\<lparr>events := evs\<rparr>) = select_icon u s"
  by (simp add: select_icon_def)

lemma select_icon_emit [simp]: "select_icon u (emit e s) = select_icon u s"
  by (simp add: select_icon_def)

lemma caches_agree_events [simp]:
  "caches_agree Sum256 (s\<lparr>events := evs\<rparr>) u = caches_agree Sum256 s u"
  by (simp add: caches_agree_def)

lemma getIconHandler_no_user:
  assumes "\<not> begin_err F" and "\<not> users_err F"
    and "select_user username s = None"
  shows "fst (getIconHandler Sum256 F username v s) =
           HTTPError 404 ''not found user that has the given username''"
  using assms by (simp add: getIconHandler_def Let_def)

lemma fillIconHashes_complete:
  assumes "\<not> icons_err F"
  shows "\<exists>M s'. fillIconHashes Sum256 F userIDs s = (Inr M, s')
     \<and> (\<forall>userID\<in>set userIDs. M userID \<noteq> None)
     \<and> (\<forall>userID\<in>set userIDs. iconHashCache s userID = None
          \<and> userID \<notin> icon_user_id ` set (icons_tbl s) \<longrightarrow>
          M userID = Some (fallbackImageHash s) \<and> iconHashCache s' userID = None)"
proof -
  let ?D = "map_of (rev (digests Sum256 (select_icons (uncached s userIDs) s)))"
  obtain M s' where r: "fillIconHashes Sum256 F userIDs s = (Inr M, s')"
    and M: "\<And>userID. M userID =
          (if userID \<in> set userIDs
           then Some (case iconHashCache s userID of
                        Some h \<Rightarrow> h
                      | None \<Rightarrow> (case ?D userID of Some d \<Rightarrow> d | None \<Rightarrow> fallbackImageHash s))
           else None)"
    and h: "iconHashCache s' = iconHashCache s ++ ?D"
    using fillIconHashes_result [OF assms, of Sum256 userIDs s] by blast
  have "M userID = Some (fallbackImageHash s) \<and> iconHashCache s' userID = None"
    if "userID \<in> set userIDs" "iconHashCache s userID = None"
      "userID \<notin> icon_user_id ` set (icons_tbl s)" for userID
  proof -
    have "?D userID = None"
      using that(3) by (simp add: digests_select_dom)
    with that M [of userID] h show ?thesis
      by (simp add: map_add_def)
  qed
  with r M show ?thesis by auto
qed

lemma fresh_step:
  assumes "hash_index_fresh Sum256 s"
    and "\<And>v. v \<noteq> u \<Longrightarrow> files s' (getIconPath v) = files s (getIconPath v)"
    and "\<And>r. icon_user_id r \<noteq> u \<Longrightarrow> (r \<in> set (icons_tbl s')) = (r \<in> set (icons_tbl s))"
    and "\<And>v. v \<noteq> u \<Longrightarrow> iconHashCache s' v = iconHashCache s v"
    and "\<And>h. iconHashCache s' u = Some h \<Longrightarrow>
        (\<exists>b. files s' (getIconPath u) = Some b \<and> h = sprintf_x (Sum256 b))
      \<or> (\<exists>r\<in>set (icons_tbl s'). icon_user_id r = u \<and> h = sprintf_x (Sum256 (icon_image r)))"
  shows "hash_index_fresh Sum256 s'"
  unfolding hash_index_fresh_def
proof (intro allI impI)
  fix userID h
  assume h: "iconHashCache s' userID = Some h"
  show "(\<exists>b. files s' (getIconPath userID) = Some b \<and> h = sprintf_x (Sum256 b))
      \<or> (\<exists>r\<in>set (icons_tbl s'). icon_user_id r = userID \<and> h = sprintf_x (Sum256 (icon_image r)))"
  proof (cases "userID = u")
    case True
    with assms(5) h show ?thesis by simp
  next
    case False
    with h assms(4) have "iconHashCache s userID = Some h" by simp
    with assms(1) have "(\<exists>b. files s (getIconPath userID) = Some b \<and> h = sprintf_x (Sum256 b))
      \<or> (\<exists>r\<in>set (icons_tbl s). icon_user_id r = userID \<and> h = sprintf_x (Sum256 (icon_image r)))"
      by (simp add: hash_index_fresh_def)
    with False assms(2) [of userID] assms(3) show ?thesis
      by auto
  qed
qed

lemma fresh_frame:
  assumes "hash_index_fresh Sum256 s" and "files s' = files s" and "icons_tbl s' = icons_tbl s"
    and "iconHashCache s' = iconHashCache s"
  shows "hash_index_fresh Sum256 s'"
  using assms by (simp add: hash_index_fresh_def)

lemma select_icon_SomeD:
  "select_icon u s = Some img \<Longrightarrow> \<exists>r\<in>set (icons_tbl s). icon_user_id r = u \<and> icon_image r = img"
  by (auto simp: select_icon_def find_Some_iff)

lemma c_File_frame [simp]:
  "files (snd (c_File F v hdrs p s)) = files s"
  "icons_tbl (snd (c_File F v hdrs p s)) = icons_tbl s"
  "iconHashCache (snd (c_File F v hdrs p s)) = iconHashCache s"
  by (simp_all add: c_File_def split: option.splits)

lemma respondCachedFile_frame [simp]:
  "files (snd (respondCachedFile F c h v p s)) = files s"
  "icons_tbl (snd (respondCachedFile F c h v p s)) = icons_tbl s"
  "iconHashCache (snd (respondCachedFile F c h v p s)) = iconHashCache s"
  by (simp_all add: respondCachedFile_def)

lemma respondFallback_frame [simp]:
  "files (snd (respondFallback F v s)) = files s"
  "icons_tbl (snd (respondFallback F v s)) = icons_tbl s"
  "iconHashCache (snd (respondFallback F v s)) = iconHashCache s"
  by (simp_all add: respondFallback_def)

lemma fresh_set:
  assumes "hash_index_fresh Sum256 s"
    and "\<And>v. v \<noteq> u \<Longrightarrow> files s' (getIconPath v) = files s (getIconPath v)"
    and "icons_tbl s' = icons_tbl s"
    and "iconHashCache s' = (iconHashCache s)(u \<mapsto> h)"
    and "(\<exists>b. files s' (getIconPath u) = Some b \<and> h = sprintf_x (Sum256 b))
      \<or> (\<exists>r\<in>set (icons_tbl s'). icon_user_id r = u \<and> h = sprintf_x (Sum256 (icon_image r)))"
  shows "hash_index_fresh Sum256 s'"
  using assms(1)
proof (rule fresh_step [of Sum256 s u s'])
  fix h'
  assume "iconHashCache s' u = Some h'"
  with assms(4) have "h' = h" by simp
  with assms(5) show "(\<exists>b. files s' (getIconPath u) = Some b \<and> h' = sprintf_x (Sum256 b))
      \<or> (\<exists>r\<in>set (icons_tbl s'). icon_user_id r = u \<and> h' = sprintf_x (Sum256 (icon_image r)))"
    by simp
qed (simp_all add: assms(2,3,4))

lemma getIconFromFile_fresh:
  assumes "hash_index_fresh Sum256 s"
  shows "hash_index_fresh Sum256 (snd (getIconFromFile Sum256 F u v h c s))"
proof (cases "\<not> c \<and> \<not> read_err F (getIconPath u) \<and> files s (getIconPath u) \<noteq> None")
  case True
  then obtain d where d: "files s (getIconPath u) = Some d" by auto
  show ?thesis
    using assms
  proof (rule fresh_set [where u = u and h = "sprintf_x (Sum256 d)"])
    show "(\<exists>b. files (snd (getIconFromFile Sum256 F u v h c s)) (getIconPath u) = Some b
             \<and> sprintf_x (Sum256 d) = sprintf_x (Sum256 b))
        \<or> (\<exists>r\<in>set (icons_tbl (snd (getIconFromFile Sum256 F u v h c s))).
             icon_user_id r = u \<and> sprintf_x (Sum256 d) = sprintf_x (Sum256 (icon_image r)))"
      using True d by (simp add: getIconFromFile_def os_ReadFile_def Let_def)
  qed (use True d in \<open>simp_all add: getIconFromFile_def os_ReadFile_def Let_def\<close>)
next
  case False
  show ?thesis
    using assms
    by (rule fresh_frame)
      (use False in \<open>auto simp: getIconFromFile_def os_ReadFile_def Let_def split: option.splits\<close>)
qed

lemma getIconFromDB_fresh:
  assumes "hash_index_fresh Sum256 s"
  shows "hash_index_fresh Sum256 (snd (getIconFromDB Sum256 F u v s))"
proof (cases "\<not> icons_err F \<and> select_icon u s \<noteq> None")
  case True
  then obtain img where img: "select_icon u s = Some img" by auto
  from select_icon_SomeD [OF this] obtain r where r: "r \<in> set (icons_tbl s)"
    "icon_user_id r = u" "icon_image r = img" by blast
  show ?thesis
    using assms
  proof (rule fresh_set [where u = u and h = "sprintf_x (Sum256 img)"])
    show "(\<exists>b. files (snd (getIconFromDB Sum256 F u v s)) (getIconPath u) = Some b
             \<and> sprintf_x (Sum256 img) = sprintf_x (Sum256 b))
        \<or> (\<exists>r\<in>set (icons_tbl (snd (getIconFromDB Sum256 F u v s))).
             icon_user_id r = u \<and> sprintf_x (Sum256 img) = sprintf_x (Sum256 (icon_image r)))"
      using True img r by (auto simp: getIconFromDB_def Let_def split_beta)
  qed (use True img in \<open>auto simp: getIconFromDB_def Let_def split_beta os_WriteFile_files
         getIconPath_def split: wfault.splits\<close>)
next
  case False
  show ?thesis
    using assms
    by (rule fresh_frame)
      (use False in \<open>auto simp: getIconFromDB_def Let_def split: option.splits\<close>)
qed

lemma fresh_emit: "hash_index_fresh Sum256 s \<Longrightarrow> hash_index_fresh Sum256 (emit e s)"
  by (rule fresh_frame) simp_all

lemma getIconHandler_fresh:
  assumes "hash_index_fresh Sum256 s"
  shows "hash_index_fresh Sum256 (snd (getIconHandler Sum256 F username v s))"
  using assms
  by (auto simp: getIconHandler_def Let_def split_beta
        intro!: fresh_emit getIconFromFile_fresh getIconFromDB_fresh split: option.splits)

lemma replaceIcon_fresh:
  assumes "hash_index_fresh Sum256 s"
  shows "hash_index_fresh Sum256 (snd (replaceIcon Sum256 F u req s))"
proof (cases "fst (replaceIcon Sum256 F u req s) = Responded (c_JSON 201 (IconID (icons_next_id s)))")
  case True
  then obtain img where img: "req = Request img"
    and ok: "\<not> begin_err F" "\<not> delete_err F" "\<not> insert_err F" "\<not> lastid_err F" "\<not> commit_err F"
    by (cases req) (auto simp: replaceIcon_def Let_def HTTPError_def c_JSON_def split: if_splits)
  show ?thesis
    using assms
  proof (rule fresh_step [where u = u])
    fix h'
    assume "iconHashCache (snd (replaceIcon Sum256 F u req s)) u = Some h'"
    then show "(\<exists>b. files (snd (replaceIcon Sum256 F u req s)) (getIconPath u) = Some b
             \<and> h' = sprintf_x (Sum256 b))
        \<or> (\<exists>r\<in>set (icons_tbl (snd (replaceIcon Sum256 F u req s))).
             icon_user_id r = u \<and> h' = sprintf_x (Sum256 (icon_image r)))"
      using img ok by (auto simp: replaceIcon_def Let_def split_beta)
  qed (use img ok in \<open>auto simp: replaceIcon_def Let_def split_beta os_WriteFile_files
         getIconPath_def split: wfault.splits\<close>)
next
  case False
  obtain out s' where r: "replaceIcon Sum256 F u req s = (out, s')"
    by (cases "replaceIcon Sum256 F u req s")
  have "\<forall>r. out = Responded r \<longrightarrow> status r \<noteq> 201"
    using False r
    by (cases req) (auto simp: replaceIcon_def Let_def split_beta HTTPError_def c_JSON_def
         split: if_splits)
  from replaceIcon_failure [OF r this] assms r show ?thesis
    by (auto intro: fresh_frame)
qed

lemma postIconHandler_fresh:
  assumes "hash_index_fresh Sum256 s"
  shows "hash_index_fresh Sum256 (snd (postIconHandler Sum256 F now sess req s))"
  using assms
  by (auto simp: postIconHandler_cases intro: replaceIcon_fresh split: option.splits)

lemma clearIconCache_fresh:
  "hash_index_fresh Sum256 (snd (clearIconCache F s))"
  by (simp add: clearIconCache_def hash_index_fresh_def Let_def split: readdir_result.splits)

lemma storeIcon_fresh:
  assumes "hash_index_fresh Sum256 s"
    and "\<exists>r\<in>set (icons_tbl s). icon_user_id r = im_UserID icon \<and> icon_image r = im_Image icon"
  shows "hash_index_fresh Sum256 (storeIcon Sum256 F icon s)"
  using assms(1)
proof (rule fresh_set [where u = "im_UserID icon" and h = "sprintf_x (Sum256 (im_Image icon))"])
  show "(\<exists>b. files (storeIcon Sum256 F icon s) (getIconPath (im_UserID icon)) = Some b
           \<and> sprintf_x (Sum256 (im_Image icon)) = sprintf_x (Sum256 b))
      \<or> (\<exists>r\<in>set (icons_tbl (storeIcon Sum256 F icon s)).
           icon_user_id r = im_UserID icon
           \<and> sprintf_x (Sum256 (im_Image icon)) = sprintf_x (Sum256 (icon_image r)))"
    using assms(2) by auto
qed (simp_all add: storeIcon_files_other getIconPath_def)

lemma storeIcons_fresh:
  assumes "hash_index_fresh Sum256 s"
    and "\<forall>icon\<in>set icons. \<exists>r\<in>set (icons_tbl s).
           icon_user_id r = im_UserID icon \<and> icon_image r = im_Image icon"
  shows "hash_index_fresh Sum256 (snd (snd (storeIcons Sum256 F icons m S s)))"
  using assms
proof (induction icons arbitrary: m S s)
  case Nil
  then show ?case by simp
next
  case (Cons icon icons)
  have "hash_index_fresh Sum256 (storeIcon Sum256 F icon s)"
    using Cons.prems by (auto intro: storeIcon_fresh)
  moreover have "\<forall>i\<in>set icons. \<exists>r\<in>set (icons_tbl (storeIcon Sum256 F icon s)).
           icon_user_id r = im_UserID i \<and> icon_image r = im_Image i"
    using Cons.prems by simp
  ultimately show ?case
    unfolding storeIcons_Cons by (rule Cons.IH)
qed

lemma fillIconHashes_fresh:
  assumes "hash_index_fresh Sum256 s"
  shows "hash_index_fresh Sum256 (snd (fillIconHashes Sum256 F userIDs s))"
proof (cases "uncached s userIDs = [] \<or> icons_err F")
  case True
  show ?thesis
    using assms
    by (rule fresh_frame)
      (use True collectUncached_snd [of userIDs s Map.empty "[]"] in
        \<open>auto simp: fillIconHashes_def split_beta sqlx_In_def Let_def\<close>)
next
  case False
  have "hash_index_fresh Sum256 (snd (snd (storeIcons Sum256 F (select_icons (uncached s userIDs) s)
        (fst (collectUncached userIDs s Map.empty [])) {}
        (emit (SelectIconsIn (uncached s userIDs)) s))))"
    by (rule storeIcons_fresh) (use assms in \<open>auto simp: fresh_emit select_icons_mem\<close>)
  with False show ?thesis
    by (simp add: fillIconHashes_state)
qed

lemma fillUsersResponse_fresh:
  assumes "hash_index_fresh Sum256 s"
  shows "hash_index_fresh Sum256 (snd (fillUsersResponse Sum256 F userModels s))"
  using assms
  by (auto simp: fillUsersResponse_def Let_def sqlx_In_def
        intro!: fresh_emit fillIconHashes_fresh split: sum.splits prod.splits
        dest: arg_cong [where f = snd])

lemma quoted_nonempty [simp]: "quoted h \<noteq> []" "[] \<noteq> quoted h"
  by (simp_all add: quoted_def)

lemma quoted_inj [simp]: "(quoted a = quoted b) = (a = b)"
  by (simp add: quoted_def)

lemma demo_select_user:
  "select_user ''alice'' demo_state = Some (demo_user 1 ''alice'')"
  "select_user ''bob'' demo_state = Some (demo_user 2 ''bob'')"
  "select_user ''dave'' demo_state = None"
  by (simp_all add: select_user_def demo_state_def demo_user_def)

lemma demo_select_icon:
  "select_icon 1 demo_state = Some [1, 2, 3]"
  "select_icon 2 demo_state = None"
  by (simp_all add: select_icon_def demo_state_def)

lemma fetched_state_eq:
  "fetched_state = demo_state\<lparr>files := (files demo_state)(CachePath 1 \<mapsto> [1, 2, 3]),
     iconHashCache := [1 \<mapsto> sprintf_x (demo_Sum256 [1, 2, 3])],
     events := [BeginTx, SelectUserByName ''alice'', Stat (CachePath 1), SelectIconByUser 1,
                WriteFile (CachePath 1) [1, 2, 3], HashSet 1 (sprintf_x (demo_Sum256 [1, 2, 3]))]\<rparr>"
  by (simp add: fetched_state_def getIconHandler_def getIconFromDB_def getIconHash_def
        select_user_def select_icon_def os_Stat_def os_WriteFile_def getIconPath_def
        noFaults_def Let_def demo_user_def setIconHash_def emit_def demo_state_def)

lemma uploaded_state_eq:
  "uploaded_state = demo_state\<lparr>
     icons_tbl := [\<lparr>icon_id = 1, icon_user_id = 1, icon_image = [1, 2, 3]\<rparr>,
                   \<lparr>icon_id = 2, icon_user_id = 2, icon_image = [4, 5]\<rparr>],
     icons_next_id := 3,
     iconHashCache := [2 \<mapsto> sprintf_x (demo_Sum256 [4, 5])],
     events := [BeginTx, DeleteIcons 2, InsertIcon 2 [4, 5], Commit,
                WriteFile (CachePath 2) [4, 5], LogWarn, HashSet 2 (sprintf_x (demo_Sum256 [4, 5]))]\<rparr>"
  by (simp add: uploaded_state_def postIconHandler_def verifyUserSession_def demo_session_def
        replaceIcon_def os_WriteFile_def getIconPath_def failingWrites_def
        noFaults_def Let_def setIconHash_def emit_def demo_state_def)

lemma demo_caches_agree: "caches_agree demo_Sum256 demo_state u"
  by (simp add: caches_agree_def demo_state_def getIconPath_def)

lemma noFaults_simps [simp]:
  "\<not> begin_err noFaults" "\<not> users_err noFaults" "\<not> icons_err noFaults" "\<not> themes_err noFaults"
  "\<not> delete_err noFaults" "\<not> insert_err noFaults" "\<not> lastid_err noFaults" "\<not> commit_err noFaults"
  "\<not> stat_err noFaults p" "\<not> read_err noFaults p" "write_fault noFaults p = WriteOk"
  by (simp_all add: noFaults_def)

lemma fetched_fields:
  "select_user ''alice'' fetched_state = Some (demo_user 1 ''alice'')"
  "iconHashCache fetched_state 1 = Some (sprintf_x (demo_Sum256 [1, 2, 3]))"
  "files fetched_state (getIconPath 1) = Some [1, 2, 3]"
  by (simp_all add: fetched_state_eq select_user_def demo_state_def demo_user_def getIconPath_def)

lemma uploaded_result:
  "postIconHandler demo_Sum256 failingWrites 50 demo_session (Request [4, 5]) demo_state =
     (Responded (c_JSON 201 (IconID 2)), uploaded_state)"
  by (simp add: uploaded_state_def postIconHandler_def verifyUserSession_def demo_session_def
        replaceIcon_def os_WriteFile_def getIconPath_def failingWrites_def
        noFaults_def Let_def setIconHash_def emit_def demo_state_def)

lemma demo_fill_facts:
  "distinct (map icon_user_id (icons_tbl demo_state))"
  "uncached demo_state (remdups (map um_ID [demo_user 1 ''alice'', demo_user 2 ''bob''])) = [1, 2]"
  "\<lparr>im_UserID = 1, im_Image = [1, 2, 3]\<rparr> \<in> set (select_icons [1, 2] demo_state)"
  "iconHashCache demo_state 2 = None"
  "2 \<notin> icon_user_id ` set (icons_tbl demo_state)"
  "files demo_state (getIconPath 1) = None"
  by (simp_all add: demo_state_def demo_user_def uncached_def select_icons_def getIconPath_def)

lemma ServeContent_plain:
  assumes "only_if_none_match F"
  shows "ServeContent F v [(''ETag'', e)] d =
     (if checkIfNoneMatch v e = condFalse
      then \<lparr>status = 304, headers = [(''ETag'', e)], body = NoBody\<rparr>
      else \<lparr>status = 200, headers = [(''ETag'', e)], body = Bytes d\<rparr>)"
  using assms by (simp add: ServeContent_def only_if_none_match_def Let_def)

lemma TrimString_id:
  assumes "s \<noteq> []" and "\<not> isASCIISpace (hd s)" and "\<not> isASCIISpace (last s)"
  shows "TrimString s = s"
proof -
  from assms have a: "dropWhile isASCIISpace s = s"
    by (cases s) auto
  from assms have "rev s \<noteq> []" and "\<not> isASCIISpace (hd (rev s))"
    by (simp_all add: hd_rev)
  then have "dropWhile isASCIISpace (rev s) = rev s"
    by (cases "rev s") auto
  with a show ?thesis by (simp add: TrimString_def)
qed

lemma checkIfNoneMatch_star: "checkIfNoneMatch ''*'' etag = condFalse"
  by (simp add: checkIfNoneMatch_def checkIfNoneMatch_loop.simps [of "''*''"] TrimString_def
        isASCIISpace_def)

lemma scanQuoted_closing:
  "\<forall>c\<in>set h. etagChar c \<Longrightarrow> scanQuoted (h @ CHR 0x22 # remain) = Some (h @ [CHR 0x22], remain)"
  by (induction h) (auto simp: etagChar_def)

lemma scanETag_weak:
  assumes "\<forall>c\<in>set h. etagChar c"
  shows "scanETag (CHR ''W'' # CHR ''/'' # quoted h) = Some (CHR ''W'' # CHR ''/'' # quoted h, [])"
proof -
  have t: "TrimString (CHR ''W'' # CHR ''/'' # quoted h) = CHR ''W'' # CHR ''/'' # quoted h"
    by (rule TrimString_id) (simp_all add: quoted_def isASCIISpace_def)
  show ?thesis
    unfolding scanETag_def t using scanQuoted_closing [OF assms, of "[]"]
    by (simp add: quoted_def Let_def)
qed

lemma TrimPrefix_weak [simp]:
  "TrimPrefix (quoted h) ''W/'' = quoted h"
  "TrimPrefix (CHR ''W'' # CHR ''/'' # quoted h) ''W/'' = quoted h"
  by (simp_all add: TrimPrefix_def quoted_def)

lemma checkIfNoneMatch_weak:
  assumes "\<forall>c\<in>set h. etagChar c"
  shows "checkIfNoneMatch (''W/'' @ quoted h) (quoted h) = condFalse"
proof -
  have t: "TrimString (CHR ''W'' # CHR ''/'' # quoted h) = CHR ''W'' # CHR ''/'' # quoted h"
    by (rule TrimString_id) (simp_all add: quoted_def isASCIISpace_def)
  have "checkIfNoneMatch_loop (CHR ''W'' # CHR ''/'' # quoted h) (quoted h) = condFalse"
    by (subst checkIfNoneMatch_loop.simps) (simp add: t scanETag_weak [OF assms] etagWeakMatch_def)
  then show ?thesis
    by (simp add: checkIfNoneMatch_def)
qed

lemma hexdigit_etagChar: "etagChar (hexdigit n)"
proof -
  have "hexdigit n \<in> set ''0123456789abcdef''"
    unfolding hexdigit_def by (rule nth_mem) simp
  moreover have "\<forall>c\<in>set ''0123456789abcdef''. etagChar c"
    by (simp add: etagChar_def)
  ultimately show ?thesis by blast
qed

lemma sprintf_x_etagChar: "\<forall>c\<in>set (sprintf_x w). etagChar c"
  by (auto simp: sprintf_x_def hexdigit_etagChar)

lemma respondCachedFile_plain:
  assumes "files s p = Some d" and "\<not> read_err F p" and "only_if_none_match F"
  shows "fst (respondCachedFile F True h v p s) =
     (if v = quoted h then c_NoContent 304
      else if checkIfNoneMatch v (quoted h) = condFalse
      then \<lparr>status = 304, headers = [(''ETag'', quoted h)], body = NoBody\<rparr>
      else \<lparr>status = 200, headers = [(''ETag'', quoted h)], body = Bytes d\<rparr>)"
  using assms by (simp add: respondCachedFile_def c_File_def ServeContent_plain)

lemma noFaults_request [simp]:
  "\<not> req_precondition_failed noFaults" "\<not> req_not_modified_since noFaults"
  "req_range noFaults = NoRange"
  by (simp_all add: noFaults_def)

lemma demo_plain: "only_if_none_match noFaults"
  by (simp add: only_if_none_match_def noFaults_def)

lemma fetched_file: "files fetched_state (CachePath 1) = Some [1, 2, 3]"
  using fetched_fields(3) by (simp add: getIconPath_def)

lemma getIconHandler_no_icon:
  assumes "\<not> begin_err F" and "\<not> users_err F" and "\<not> icons_err F"
    and "only_if_none_match F"
    and "\<not> read_err F fallbackImage" and "files s fallbackImage = Some fb"
    and "select_user username s = Some user"
    and "caches_agree Sum256 s (um_ID user)"
    and "select_icon (um_ID user) s = None"
  shows "fst (getIconHandler Sum256 F username v s) =
           (if v = quoted (fallbackImageHash s) then c_NoContent 304
            else if checkIfNoneMatch v (quoted (fallbackImageHash s)) = condFalse
            then \<lparr>status = 304, headers = [(''ETag'', quoted (fallbackImageHash s))], body = NoBody\<rparr>
            else \<lparr>status = 200, headers = [(''ETag'', quoted (fallbackImageHash s))],
                   body = Bytes fb\<rparr>)
         \<and> (\<exists>evs. snd (getIconHandler Sum256 F username v s) = s\<lparr>events := evs\<rparr>)"
proof -
  from assms(8,9) have nofile: "files s (getIconPath (um_ID user)) = None"
    and nohash: "iconHashCache s (um_ID user) = None"
    by (auto simp: caches_agree_def)
  show ?thesis
    using assms(1-3,5-7,9) nofile nohash
    by (auto simp: getIconHandler_def getIconFromDB_def getIconHash_def respondFallback_def
          c_File_def ServeContent_plain [OF assms(4)] os_Stat_def emit_def Let_def)
qed

lemma getIconHandler_icon:
  assumes "\<not> begin_err F" and "\<not> users_err F" and "\<not> icons_err F"
    and "only_if_none_match F"
    and "select_user username s = Some user"
    and "caches_agree Sum256 s (um_ID user)"
    and "\<not> read_err F (getIconPath (um_ID user))"
    and "select_icon (um_ID user) s = Some img"
  shows "if v = quoted (sprintf_x (Sum256 img))
            \<or> (files s (getIconPath (um_ID user)) \<noteq> None \<and> \<not> stat_err F (getIconPath (um_ID user))
                \<and> checkIfNoneMatch v (quoted (sprintf_x (Sum256 img))) = condFalse)
         then status (fst (getIconHandler Sum256 F username v s)) = 304
            \<and> body (fst (getIconHandler Sum256 F username v s)) = NoBody
         else status (fst (getIconHandler Sum256 F username v s)) = 200
            \<and> body (fst (getIconHandler Sum256 F username v s)) = Bytes img
            \<and> map_of (headers (fst (getIconHandler Sum256 F username v s))) ''ETag''
                = Some (quoted (sprintf_x (Sum256 img)))"
proof (cases "fst (os_Stat F (getIconPath (um_ID user)) (emit (SelectUserByName username) (emit BeginTx s))) = StatOk")
  case True
  then obtain b where fl: "files s (getIconPath (um_ID user)) = Some b"
    and st: "\<not> stat_err F (getIconPath (um_ID user))"
    by (auto split: if_splits)
  with assms(6,8) have b: "b = img"
    by (auto simp: caches_agree_def)
  from assms(6,8) have hash: "iconHashCache s (um_ID user) = None
      \<or> iconHashCache s (um_ID user) = Some (sprintf_x (Sum256 img))"
    by (cases "iconHashCache s (um_ID user)") (auto simp: caches_agree_def)
  show ?thesis
    using True assms(1-3,5,7) fl st b hash
    by (auto simp: getIconHandler_def getIconFromFile_def getIconHash_def respondCachedFile_def
          c_File_def ServeContent_plain [OF assms(4)] c_NoContent_def os_ReadFile_def
          split_beta Let_def)
next
  case False
  then have "files s (getIconPath (um_ID user)) = None \<or> stat_err F (getIconPath (um_ID user))"
    by (auto split: if_splits)
  with False show ?thesis
    using assms(1-3,5,8)
    by (auto simp: getIconHandler_def getIconFromDB_def respondImage_def c_Blob_def
          c_NoContent_def split_beta Let_def)
qed

lemma outdated_state_eq:
  "outdated_state = demo_state\<lparr>
     icons_tbl := [\<lparr>icon_id = 2, icon_user_id = 1, icon_image = [4, 5]\<rparr>],
     icons_next_id := 3,
     files := (files demo_state)(CachePath 1 \<mapsto> [1, 2, 3]),
     iconHashCache := [1 \<mapsto> sprintf_x (demo_Sum256 [4, 5])],
     events := [BeginTx, SelectUserByName ''alice'', Stat (CachePath 1), SelectIconByUser 1,
                WriteFile (CachePath 1) [1, 2, 3], HashSet 1 (sprintf_x (demo_Sum256 [1, 2, 3])),
                BeginTx, DeleteIcons 1, InsertIcon 1 [4, 5], Commit,
                WriteFile (CachePath 1) [4, 5], LogWarn, HashSet 1 (sprintf_x (demo_Sum256 [4, 5]))]\<rparr>"
  by (simp add: outdated_state_def fetched_state_eq postIconHandler_def verifyUserSession_def
        alice_session_def replaceIcon_def os_WriteFile_def getIconPath_def failingWrites_def
        noFaults_def Let_def setIconHash_def emit_def demo_state_def)

lemma outdated_fields:
  "select_user ''alice'' outdated_state = Some (demo_user 1 ''alice'')"
  "select_icon 1 outdated_state = Some [4, 5]"
  "iconHashCache outdated_state 1 = Some (sprintf_x (demo_Sum256 [4, 5]))"
  "files outdated_state (getIconPath 1) = Some [1, 2, 3]"
  by (simp_all add: outdated_state_eq select_user_def select_icon_def demo_state_def demo_user_def
        getIconPath_def)

lemma demo_fallback:
  "files demo_state fallbackImage = Some [255, 216]"
  "files demo_state (getIconPath u) = None"
  "iconHashCache demo_state u = None"
  by (simp_all add: demo_state_def fallbackImage_def getIconPath_def)

lemma bob_fallback_response:
  "fst (getIconHandler demo_Sum256 F ''bob'' v demo_state) =
     (if begin_err F then HTTPError 500 ''failed to begin transaction''
      else if users_err F then HTTPError 500 ''failed to get user''
      else if stat_err F (getIconPath 2) then fst (getIconFromDB demo_Sum256 F 2 v
             (emit (Stat (getIconPath 2)) (emit (SelectUserByName ''bob'') (emit BeginTx demo_state))))
      else fst (getIconFromDB demo_Sum256 F 2 v
             (emit (Stat (getIconPath 2)) (emit (SelectUserByName ''bob'') (emit BeginTx demo_state)))))"
  by (simp add: getIconHandler_def demo_select_user demo_fallback getIconHash_def Let_def
        split_beta demo_user_def)

lemma fetched_caches_agree: "caches_agree demo_Sum256 fetched_state 1"
  using fetched_fields
  by (simp add: caches_agree_def select_icon_def fetched_state_eq demo_state_def getIconPath_def)

lemma storeIcon_files_stat_err:
  "stat_err F p \<Longrightarrow> files (storeIcon Sum256 F icon s) p = files s p"
  by (auto simp: storeIcon_def Let_def os_WriteFile_files split: wfault.splits)

lemma storeIcons_files_stat_err:
  "stat_err F p \<Longrightarrow> files (snd (snd (storeIcons Sum256 F icons m S s))) p = files s p"
proof (induction icons arbitrary: m S s)
  case Nil
  then show ?case by simp
next
  case (Cons icon icons)
  have "files (storeIcon Sum256 F icon s) p = files s p"
    using Cons.prems by (rule storeIcon_files_stat_err)
  with Cons show ?case
    unfolding storeIcons_Cons by simp
qed

subsection \<open>The claims\<close>

text \<open>
  C1, as amended. \<^verbatim>\<open>GET /icon/{username}\<close> for a request that carries no conditional
  header besides \<^verbatim>\<open>If-None-Match\<close> and no \<^verbatim>\<open>Range\<close>, where the database statements and
  the reading of files do not fail, the fallback image file holds \<open>fb\<close>, and the cached
  file and the hash index entry of the requested user, where there are any, agree with
  the user's row in \<^verbatim>\<open>icons\<close> (\<open>caches_agree\<close>).
  \<^item> No row of \<^verbatim>\<open>users\<close> has the name: the answer is 404.
  \<^item> The user exists and has no row in \<^verbatim>\<open>icons\<close>: the answer is 304 without a body
    when \<^verbatim>\<open>If-None-Match\<close> is the quoted \<^verbatim>\<open>fallbackImageHash\<close>, and also when
    \<^verbatim>\<open>http.ServeContent\<close>, to which \<^verbatim>\<open>c.File\<close> hands the fallback image, finds the
    \<^verbatim>\<open>ETag\<close> matched by the header (\<open>checkIfNoneMatch\<close>: a \<^verbatim>\<open>*\<close>, or a listed entity tag
    that is the quoted \<^verbatim>\<open>fallbackImageHash\<close> up to the prefix \<^verbatim>\<open>W/\<close>); otherwise it is
    200 with the bytes of the fallback image and \<^verbatim>\<open>ETag\<close> set to the quoted
    \<^verbatim>\<open>fallbackImageHash\<close>. The answer does not mention the user, so it is the same for
    every such user, and a second call on the state the first call leaves gives it
    again.
  \<^item> The user exists and has the image \<open>img\<close>: the answer is 304 without a body when
    \<^verbatim>\<open>If-None-Match\<close> is the quoted digest of \<open>img\<close>, and also, if \<^verbatim>\<open>os.Stat\<close> finds the
    cached file, so that \<^verbatim>\<open>c.File\<close> serves it, when \<^verbatim>\<open>http.ServeContent\<close> finds the
    \<^verbatim>\<open>ETag\<close> matched by the header; otherwise it is 200 with the body \<open>img\<close> and
    \<^verbatim>\<open>ETag\<close> set to the quoted digest of \<open>img\<close>.
\<close>

theorem C1_icon_responses:
  assumes "\<not> begin_err F" and "\<not> users_err F" and "\<not> icons_err F"
    and "only_if_none_match F"
    and "\<not> read_err F fallbackImage" and "files s fallbackImage = Some fb"
    and "\<forall>user. select_user username s = Some user \<longrightarrow>
           caches_agree Sum256 s (um_ID user) \<and> \<not> read_err F (getIconPath (um_ID user))"
  shows "(select_user username s = None \<longrightarrow>
            status (fst (getIconHandler Sum256 F username v s)) = 404)
     \<and> (\<forall>user. select_user username s = Some user
            \<and> select_icon (um_ID user) s = None \<longrightarrow>
          fst (getIconHandler Sum256 F username v s) =
            (if v = quoted (fallbackImageHash s) then c_NoContent 304
             else if checkIfNoneMatch v (quoted (fallbackImageHash s)) = condFalse
             then \<lparr>status = 304, headers = [(''ETag'', quoted (fallbackImageHash s))],
                    body = NoBody\<rparr>
             else \<lparr>status = 200, headers = [(''ETag'', quoted (fallbackImageHash s))],
                    body = Bytes fb\<rparr>)
          \<and> fst (getIconHandler Sum256 F username v (snd (getIconHandler Sum256 F username v s)))
              = fst (getIconHandler Sum256 F username v s))
     \<and> (\<forall>user img. select_user username s = Some user
            \<and> select_icon (um_ID user) s = Some img \<longrightarrow>
          (if v = quoted (sprintf_x (Sum256 img))
             \<or> (files s (getIconPath (um_ID user)) \<noteq> None
                 \<and> \<not> stat_err F (getIconPath (um_ID user))
                 \<and> checkIfNoneMatch v (quoted (sprintf_x (Sum256 img))) = condFalse)
           then status (fst (getIconHandler Sum256 F username v s)) = 304
              \<and> body (fst (getIconHandler Sum256 F username v s)) = NoBody
           else status (fst (getIconHandler Sum256 F username v s)) = 200
              \<and> body (fst (getIconHandler Sum256 F username v s)) = Bytes img
              \<and> map_of (headers (fst (getIconHandler Sum256 F username v s))) ''ETag''
                  = Some (quoted (sprintf_x (Sum256 img)))))"
proof -
  have a: "status (fst (getIconHandler Sum256 F username v s)) = 404"
    if "select_user username s = None"
    using getIconHandler_no_user [OF assms(1,2) that] by (simp add: HTTPError_def)
  have b: "fst (getIconHandler Sum256 F username v s) =
            (if v = quoted (fallbackImageHash s) then c_NoContent 304
             else if checkIfNoneMatch v (quoted (fallbackImageHash s)) = condFalse
             then \<lparr>status = 304, headers = [(''ETag'', quoted (fallbackImageHash s))],
                    body = NoBody\<rparr>
             else \<lparr>status = 200, headers = [(''ETag'', quoted (fallbackImageHash s))],
                    body = Bytes fb\<rparr>)
          \<and> fst (getIconHandler Sum256 F username v (snd (getIconHandler Sum256 F username v s)))
              = fst (getIconHandler Sum256 F username v s)"
    if u: "select_user username s = Some user"
      and n: "select_icon (um_ID user) s = None" for user
  proof -
    from assms(7) u have ag: "caches_agree Sum256 s (um_ID user)" by simp
    note first = getIconHandler_no_icon [OF assms(1-6) u ag n, of v]
    then obtain evs where evs: "snd (getIconHandler Sum256 F username v s) = s\<lparr>events := evs\<rparr>"
      by blast
    have "fst (getIconHandler Sum256 F username v (s\<lparr>events := evs\<rparr>)) =
            (if v = quoted (fallbackImageHash (s\<lparr>events := evs\<rparr>)) then c_NoContent 304
             else if checkIfNoneMatch v (quoted (fallbackImageHash (s\<lparr>events := evs\<rparr>))) = condFalse
             then \<lparr>status = 304, headers = [(''ETag'', quoted (fallbackImageHash (s\<lparr>events := evs\<rparr>)))],
                    body = NoBody\<rparr>
             else \<lparr>status = 200, headers = [(''ETag'', quoted (fallbackImageHash (s\<lparr>events := evs\<rparr>)))],
                    body = Bytes fb\<rparr>)"
      using getIconHandler_no_icon [OF assms(1-5), of "s\<lparr>events := evs\<rparr>" fb username user Sum256 v]
        assms(6) u ag n by simp
    with first evs show ?thesis by simp
  qed
  have c: "if v = quoted (sprintf_x (Sum256 img))
             \<or> (files s (getIconPath (um_ID user)) \<noteq> None
                 \<and> \<not> stat_err F (getIconPath (um_ID user))
                 \<and> checkIfNoneMatch v (quoted (sprintf_x (Sum256 img))) = condFalse)
           then status (fst (getIconHandler Sum256 F username v s)) = 304
              \<and> body (fst (getIconHandler Sum256 F username v s)) = NoBody
           else status (fst (getIconHandler Sum256 F username v s)) = 200
              \<and> body (fst (getIconHandler Sum256 F username v s)) = Bytes img
              \<and> map_of (headers (fst (getIconHandler Sum256 F username v s))) ''ETag''
                  = Some (quoted (sprintf_x (Sum256 img)))"
    if u: "select_user username s = Some user"
      and i: "select_icon (um_ID user) s = Some img" for user img
  proof -
    from assms(7) u have ag: "caches_agree Sum256 s (um_ID user)"
      and rd: "\<not> read_err F (getIconPath (um_ID user))" by simp_all
    show ?thesis
      by (rule getIconHandler_icon [OF assms(1-4) u ag rd i])
  qed
  from a b c show ?thesis by blast
qed

theorem C1_icon_responses_witness:
  "\<not> begin_err noFaults \<and> \<not> users_err noFaults \<and> \<not> icons_err noFaults
   \<and> only_if_none_match noFaults
   \<and> \<not> read_err noFaults fallbackImage \<and> files demo_state fallbackImage = Some [255, 216]
   \<and> select_user ''dave'' demo_state = None
   \<and> status (fst (getIconHandler demo_Sum256 noFaults ''dave'' [] demo_state)) = 404
   \<and> select_user ''bob'' demo_state = Some (demo_user 2 ''bob'')
   \<and> caches_agree demo_Sum256 demo_state 2 \<and> \<not> read_err noFaults (getIconPath 2)
   \<and> select_icon 2 demo_state = None
   \<and> fst (getIconHandler demo_Sum256 noFaults ''bob'' [] demo_state) =
        \<lparr>status = 200, headers = [(''ETag'', quoted (fallbackImageHash demo_state))],
         body = Bytes [255, 216]\<rparr>
   \<and> fst (getIconHandler demo_Sum256 noFaults ''bob'' ''*'' demo_state) =
        \<lparr>status = 304, headers = [(''ETag'', quoted (fallbackImageHash demo_state))],
         body = NoBody\<rparr>
   \<and> fst (getIconHandler demo_Sum256 noFaults ''bob'' []
          (snd (getIconHandler demo_Sum256 noFaults ''bob'' [] demo_state))) =
        fst (getIconHandler demo_Sum256 noFaults ''bob'' [] demo_state)
   \<and> select_user ''alice'' fetched_state = Some (demo_user 1 ''alice'')
   \<and> caches_agree demo_Sum256 fetched_state 1 \<and> \<not> read_err noFaults (getIconPath 1)
   \<and> select_icon 1 fetched_state = Some [1, 2, 3]
   \<and> status (fst (getIconHandler demo_Sum256 noFaults ''alice'' [] fetched_state)) = 200
   \<and> body (fst (getIconHandler demo_Sum256 noFaults ''alice'' [] fetched_state)) = Bytes [1, 2, 3]
   \<and> status (fst (getIconHandler demo_Sum256 noFaults ''alice'' ''*'' fetched_state)) = 304"
proof -
  have b: "\<not> begin_err noFaults" and u: "\<not> users_err noFaults" and i: "\<not> icons_err noFaults"
    and r: "\<not> read_err noFaults fallbackImage"
    by simp_all
  note f = demo_fallback(1)
  have none: "checkIfNoneMatch [] e = condNone" for e
    by (simp add: checkIfNoneMatch_def)
  have ne: "[] \<noteq> quoted (fallbackImageHash demo_state)" "''*'' \<noteq> quoted (fallbackImageHash demo_state)"
    "[] \<noteq> quoted (sprintf_x (demo_Sum256 [1, 2, 3]))" "''*'' \<noteq> quoted (sprintf_x (demo_Sum256 [1, 2, 3]))"
    by (simp_all add: quoted_def)
  have id: "um_ID (demo_user 2 ''bob'') = 2" "um_ID (demo_user 1 ''alice'') = 1"
    by (simp_all add: demo_user_def)
  have si: "select_icon 1 fetched_state = Some [1, 2, 3]"
    by (simp add: select_icon_def fetched_state_eq demo_state_def)
  have a_dave: "\<forall>user. select_user ''dave'' demo_state = Some user \<longrightarrow>
      caches_agree demo_Sum256 demo_state (um_ID user) \<and> \<not> read_err noFaults (getIconPath (um_ID user))"
    by (simp add: demo_caches_agree)
  have a_bob: "\<forall>user. select_user ''bob'' demo_state = Some user \<longrightarrow>
      caches_agree demo_Sum256 demo_state (um_ID user) \<and> \<not> read_err noFaults (getIconPath (um_ID user))"
    by (simp add: demo_caches_agree)
  have a_alice: "\<forall>user. select_user ''alice'' fetched_state = Some user \<longrightarrow>
      caches_agree demo_Sum256 fetched_state (um_ID user) \<and> \<not> read_err noFaults (getIconPath (um_ID user))"
    by (simp add: fetched_fields(1) id fetched_caches_agree)
  have ff: "files fetched_state fallbackImage = Some [255, 216]"
    by (simp add: fetched_state_eq demo_state_def fallbackImage_def)
  note dave = C1_icon_responses [OF b u i demo_plain r f a_dave, of "[]"]
  note bob1 = C1_icon_responses [OF b u i demo_plain r f a_bob, of "[]"]
  note bob2 = C1_icon_responses [OF b u i demo_plain r f a_bob, of "''*''"]
  note alice1 = C1_icon_responses [OF b u i demo_plain r ff a_alice, of "[]"]
  note alice2 = C1_icon_responses [OF b u i demo_plain r ff a_alice, of "''*''"]
  have d: "status (fst (getIconHandler demo_Sum256 noFaults ''dave'' [] demo_state)) = 404"
    using dave demo_select_user(3) by blast
  have b1: "fst (getIconHandler demo_Sum256 noFaults ''bob'' [] demo_state) =
        \<lparr>status = 200, headers = [(''ETag'', quoted (fallbackImageHash demo_state))],
         body = Bytes [255, 216]\<rparr>
      \<and> fst (getIconHandler demo_Sum256 noFaults ''bob'' []
          (snd (getIconHandler demo_Sum256 noFaults ''bob'' [] demo_state))) =
        fst (getIconHandler demo_Sum256 noFaults ''bob'' [] demo_state)"
    using bob1 demo_select_user(2) demo_select_icon(2) id(1) ne(1) none by auto
  have b2: "fst (getIconHandler demo_Sum256 noFaults ''bob'' ''*'' demo_state) =
        \<lparr>status = 304, headers = [(''ETag'', quoted (fallbackImageHash demo_state))],
         body = NoBody\<rparr>"
    using bob2 demo_select_user(2) demo_select_icon(2) id(1) ne(2) checkIfNoneMatch_star by auto
  have a1: "status (fst (getIconHandler demo_Sum256 noFaults ''alice'' [] fetched_state)) = 200
      \<and> body (fst (getIconHandler demo_Sum256 noFaults ''alice'' [] fetched_state)) = Bytes [1, 2, 3]"
    using alice1 fetched_fields(1) si id(2) ne(3) none by auto
  have a2: "status (fst (getIconHandler demo_Sum256 noFaults ''alice'' ''*'' fetched_state)) = 304"
    using alice2 fetched_fields(1,3) si id(2) ne(4) checkIfNoneMatch_star by auto
  from b u i demo_plain r f demo_select_user(2,3) demo_caches_agree [of 2] demo_select_icon(2)
    fetched_fields(1) fetched_caches_agree si d b1 b2 a1 a2
  show ?thesis by simp
qed

text \<open>
  Requests on which the claim as it was made fails, one for each change above. Bob has
  no icon: the request with the quoted \<^verbatim>\<open>fallbackImageHash\<close> in \<^verbatim>\<open>If-None-Match\<close> is
  answered 304 without a body (lines 213 to 216), and so is the request with \<^verbatim>\<open>*\<close>
  (by \<^verbatim>\<open>http.ServeContent\<close>, line 218); a request with a \<^verbatim>\<open>Range\<close> is answered 206,
  one whose \<^verbatim>\<open>If-Modified-Since\<close> holds 304, one whose \<^verbatim>\<open>If-Match\<close> fails 412; when the
  fallback image cannot be read the answer is 404, and when the query on \<^verbatim>\<open>icons\<close>
  fails it is 500 (line 220). No user is called dave, and the answer is 500 when the
  transaction cannot be begun (line 164) or the query on \<^verbatim>\<open>users\<close> fails (line 173).
  Alice's icon is cached: when the cached file cannot be opened the answer is 404.
  And after the failed write of her upload the cached file holds her old icon: the
  answer is 200 with the old bytes, not with the bytes of her row in \<^verbatim>\<open>icons\<close>.
\<close>

theorem C1_counterexample:
  "select_user ''bob'' demo_state = Some (demo_user 2 ''bob'')
   \<and> select_icon 2 demo_state = None
   \<and> status (fst (getIconHandler demo_Sum256 noFaults ''bob''
        (quoted (fallbackImageHash demo_state)) demo_state)) = 304
   \<and> body (fst (getIconHandler demo_Sum256 noFaults ''bob''
        (quoted (fallbackImageHash demo_state)) demo_state)) = NoBody
   \<and> status (fst (getIconHandler demo_Sum256 noFaults ''bob'' ''*'' demo_state)) = 304
   \<and> status (fst (getIconHandler demo_Sum256 rangeRequest ''bob'' [] demo_state)) = 206
   \<and> status (fst (getIconHandler demo_Sum256 modifiedSinceRequest ''bob'' [] demo_state)) = 304
   \<and> status (fst (getIconHandler demo_Sum256 preconditionRequest ''bob'' [] demo_state)) = 412
   \<and> status (fst (getIconHandler demo_Sum256 unreadableFiles ''bob'' [] demo_state)) = 404
   \<and> status (fst (getIconHandler demo_Sum256 iconsFail ''bob'' [] demo_state)) = 500
   \<and> select_user ''dave'' demo_state = None
   \<and> status (fst (getIconHandler demo_Sum256 beginFails ''dave'' [] demo_state)) = 500
   \<and> status (fst (getIconHandler demo_Sum256 usersFail ''dave'' [] demo_state)) = 500
   \<and> select_user ''alice'' fetched_state = Some (demo_user 1 ''alice'')
   \<and> status (fst (getIconHandler demo_Sum256 unreadableFiles ''alice'' [] fetched_state)) = 404
   \<and> select_user ''alice'' outdated_state = Some (demo_user 1 ''alice'')
   \<and> select_icon 1 outdated_state = Some [4, 5]
   \<and> status (fst (getIconHandler demo_Sum256 noFaults ''alice'' [] outdated_state)) = 200
   \<and> body (fst (getIconHandler demo_Sum256 noFaults ''alice'' [] outdated_state)) = Bytes [1, 2, 3]"
proof -
  let ?e = "quoted (fallbackImageHash demo_state)"
  have none: "checkIfNoneMatch [] e = condNone" for e
    by (simp add: checkIfNoneMatch_def)
  have ne: "[] \<noteq> ?e" "''*'' \<noteq> ?e" "[] \<noteq> quoted (sprintf_x (demo_Sum256 [4, 5]))"
    by (simp_all add: quoted_def)
  have 1: "status (fst (getIconHandler demo_Sum256 noFaults ''bob'' ?e demo_state)) = 304"
    "body (fst (getIconHandler demo_Sum256 noFaults ''bob'' ?e demo_state)) = NoBody"
    by (simp_all add: bob_fallback_response getIconFromDB_def demo_select_icon respondFallback_def
          c_NoContent_def Let_def)
  have 2: "status (fst (getIconHandler demo_Sum256 noFaults ''bob'' ''*'' demo_state)) = 304"
    using ne(2) checkIfNoneMatch_star [of ?e]
    by (simp add: bob_fallback_response getIconFromDB_def demo_select_icon respondFallback_def
          c_File_def ServeContent_def demo_fallback Let_def)
  have 3: "status (fst (getIconHandler demo_Sum256 rangeRequest ''bob'' [] demo_state)) = 206"
    using ne(1) none [of ?e]
    by (simp add: bob_fallback_response getIconFromDB_def demo_select_icon respondFallback_def
          c_File_def ServeContent_def demo_fallback Let_def rangeRequest_def noFaults_def)
  have 4: "status (fst (getIconHandler demo_Sum256 unreadableFiles ''bob'' [] demo_state)) = 404"
    using ne(1)
    by (simp add: bob_fallback_response getIconFromDB_def demo_select_icon respondFallback_def
          c_File_def demo_fallback Let_def unreadableFiles_def noFaults_def)
  have 5: "status (fst (getIconHandler demo_Sum256 iconsFail ''bob'' [] demo_state)) = 500"
    by (simp add: bob_fallback_response getIconFromDB_def HTTPError_def Let_def iconsFail_def
          noFaults_def)
  have 6: "status (fst (getIconHandler demo_Sum256 beginFails ''dave'' [] demo_state)) = 500"
    by (simp add: getIconHandler_def HTTPError_def Let_def beginFails_def noFaults_def)
  have 7: "status (fst (getIconHandler demo_Sum256 noFaults ''alice'' [] outdated_state)) = 200"
    "body (fst (getIconHandler demo_Sum256 noFaults ''alice'' [] outdated_state)) = Bytes [1, 2, 3]"
    using ne(3) none [of "quoted (sprintf_x (demo_Sum256 [4, 5]))"] outdated_fields
    by (simp_all add: getIconHandler_def getIconFromFile_def getIconHash_def respondCachedFile_def
          c_File_def ServeContent_def Let_def demo_user_def split_beta)
  have 8: "status (fst (getIconHandler demo_Sum256 modifiedSinceRequest ''bob'' [] demo_state)) = 304"
    using ne(1) none [of ?e]
    by (simp add: bob_fallback_response getIconFromDB_def demo_select_icon respondFallback_def
          c_File_def ServeContent_def demo_fallback Let_def modifiedSinceRequest_def noFaults_def)
  have 9: "status (fst (getIconHandler demo_Sum256 preconditionRequest ''bob'' [] demo_state)) = 412"
    using ne(1)
    by (simp add: bob_fallback_response getIconFromDB_def demo_select_icon respondFallback_def
          c_File_def ServeContent_def demo_fallback Let_def preconditionRequest_def noFaults_def)
  have 10: "status (fst (getIconHandler demo_Sum256 usersFail ''dave'' [] demo_state)) = 500"
    by (simp add: getIconHandler_def HTTPError_def Let_def usersFail_def noFaults_def)
  have ne': "[] \<noteq> quoted (sprintf_x (demo_Sum256 [1, 2, 3]))"
    by (simp add: quoted_def)
  have 11: "status (fst (getIconHandler demo_Sum256 unreadableFiles ''alice'' [] fetched_state)) = 404"
    using ne' fetched_fields
    by (simp add: getIconHandler_def getIconFromFile_def getIconHash_def respondCachedFile_def
          c_File_def Let_def demo_user_def split_beta unreadableFiles_def noFaults_def)
  from demo_select_user(2,3) demo_select_icon(2) outdated_fields(1,2) fetched_fields(1)
    1 2 3 4 5 6 7 8 9 10 11
  show ?thesis by blast
qed

text \<open>
  C2, as amended. The conditional step of \<^verbatim>\<open>getIconHandler\<close> for a hash \<open>h\<close> and a value
  \<open>v\<close> of \<^verbatim>\<open>If-None-Match\<close>. In the branch that answers with the image read from the
  database (lines 235 to 242, \<^verbatim>\<open>c.Blob\<close>) the answer is 304 without a body exactly when
  \<open>v\<close> is the string \<open>quoted h\<close>, and otherwise 200 with the bytes and the header
  \<^verbatim>\<open>ETag\<close> set to \<open>quoted h\<close>. In the branch that serves the cached file with a known
  hash (lines 197 to 206, \<^verbatim>\<open>c.File\<close>), for a file that can be opened and a request
  without another conditional header and without a \<^verbatim>\<open>Range\<close>, the answer is 304 without
  a body exactly when \<open>v\<close> is \<open>quoted h\<close> or \<^verbatim>\<open>http.ServeContent\<close> finds the \<^verbatim>\<open>ETag\<close>
  matched by \<open>v\<close> (\<open>checkIfNoneMatch\<close>), and otherwise 200 with the bytes of the file and
  \<^verbatim>\<open>ETag\<close> set to \<open>quoted h\<close>. The library's comparison is weak and knows the wild
  card: \<^verbatim>\<open>*\<close> matches always, and \<^verbatim>\<open>W/"h"\<close> matches when \<open>h\<close> is made of characters
  that an entity tag may hold, as a hex digest is.
\<close>

theorem C2_conditional_response:
  assumes "files s p = Some d" and "\<not> read_err F p" and "only_if_none_match F"
  shows "(status (respondImage h v img) = 304) = (v = quoted h)
     \<and> (v = quoted h \<longrightarrow> body (respondImage h v img) = NoBody)
     \<and> (v \<noteq> quoted h \<longrightarrow>
           status (respondImage h v img) = 200
         \<and> body (respondImage h v img) = Bytes img
         \<and> map_of (headers (respondImage h v img)) ''ETag'' = Some (quoted h))
     \<and> (status (fst (respondCachedFile F True h v p s)) = 304)
          = (v = quoted h \<or> checkIfNoneMatch v (quoted h) = condFalse)
     \<and> (v = quoted h \<or> checkIfNoneMatch v (quoted h) = condFalse \<longrightarrow>
           body (fst (respondCachedFile F True h v p s)) = NoBody)
     \<and> (v \<noteq> quoted h \<and> checkIfNoneMatch v (quoted h) \<noteq> condFalse \<longrightarrow>
           status (fst (respondCachedFile F True h v p s)) = 200
         \<and> body (fst (respondCachedFile F True h v p s)) = Bytes d
         \<and> map_of (headers (fst (respondCachedFile F True h v p s))) ''ETag'' = Some (quoted h))
     \<and> checkIfNoneMatch ''*'' (quoted h) = condFalse
     \<and> ((\<forall>c\<in>set h. etagChar c) \<longrightarrow>
           checkIfNoneMatch (''W/'' @ quoted h) (quoted h) = condFalse)"
proof -
  have a: "(status (respondImage h v img) = 304) = (v = quoted h)"
    "v = quoted h \<longrightarrow> body (respondImage h v img) = NoBody"
    "v \<noteq> quoted h \<longrightarrow>
           status (respondImage h v img) = 200
         \<and> body (respondImage h v img) = Bytes img
         \<and> map_of (headers (respondImage h v img)) ''ETag'' = Some (quoted h)"
    by (simp_all add: respondImage_def c_NoContent_def c_Blob_def)
  note f = respondCachedFile_plain [OF assms, of h v]
  have b: "(status (fst (respondCachedFile F True h v p s)) = 304)
          = (v = quoted h \<or> checkIfNoneMatch v (quoted h) = condFalse)"
    "v = quoted h \<or> checkIfNoneMatch v (quoted h) = condFalse \<longrightarrow>
           body (fst (respondCachedFile F True h v p s)) = NoBody"
    "v \<noteq> quoted h \<and> checkIfNoneMatch v (quoted h) \<noteq> condFalse \<longrightarrow>
           status (fst (respondCachedFile F True h v p s)) = 200
         \<and> body (fst (respondCachedFile F True h v p s)) = Bytes d
         \<and> map_of (headers (fst (respondCachedFile F True h v p s))) ''ETag'' = Some (quoted h)"
    unfolding f by (simp_all add: c_NoContent_def)
  from a b checkIfNoneMatch_star [of "quoted h"] checkIfNoneMatch_weak [of h]
  show ?thesis by blast
qed

theorem C2_conditional_response_witness:
  "files fetched_state (CachePath 1) = Some [1, 2, 3] \<and> \<not> read_err noFaults (CachePath 1)
   \<and> only_if_none_match noFaults
   \<and> status (respondImage ''ab'' (quoted ''ab'') [7]) = 304
   \<and> status (respondImage ''ab'' ''*'' [7]) = 200
   \<and> body (respondImage ''ab'' ''*'' [7]) = Bytes [7]
   \<and> status (fst (respondCachedFile noFaults True ''ab'' (quoted ''ab'') (CachePath 1) fetched_state)) = 304
   \<and> status (fst (respondCachedFile noFaults True ''ab'' ''*'' (CachePath 1) fetched_state)) = 304
   \<and> body (fst (respondCachedFile noFaults True ''ab'' ''*'' (CachePath 1) fetched_state)) = NoBody
   \<and> status (fst (respondCachedFile noFaults True ''ab'' [] (CachePath 1) fetched_state)) = 200
   \<and> body (fst (respondCachedFile noFaults True ''ab'' [] (CachePath 1) fetched_state)) = Bytes [1, 2, 3]"
proof -
  have r: "\<not> read_err noFaults (CachePath 1)"
    by simp
  have e: "checkIfNoneMatch [] (quoted ''ab'') \<noteq> condFalse"
    by (simp add: checkIfNoneMatch_def)
  have ne: "''*'' \<noteq> quoted ''ab''" "[] \<noteq> quoted ''ab''"
    by (simp_all add: quoted_def)
  show ?thesis
    using fetched_file r demo_plain e ne
      C2_conditional_response [OF fetched_file r demo_plain, of "''ab''" "quoted ''ab''" "[7]"]
      C2_conditional_response [OF fetched_file r demo_plain, of "''ab''" "''*''" "[7]"]
      C2_conditional_response [OF fetched_file r demo_plain, of "''ab''" "[]" "[7]"]
    by simp
qed

text \<open>
  Requests on which the claim as it was made fails in the branch of the cached file,
  for alice whose file and hash are cached: \<^verbatim>\<open>*\<close> and the weak form of the quoted
  hash, neither equal to the quoted hash, are answered 304; without
  \<^verbatim>\<open>If-None-Match\<close>, a request with a \<^verbatim>\<open>Range\<close> is answered 206 with a part of the
  bytes, one whose \<^verbatim>\<open>If-Modified-Since\<close> holds 304, one whose \<^verbatim>\<open>If-Match\<close> fails 412,
  and when the file cannot be opened the answer is 404.
\<close>

theorem C2_counterexample:
  "''*'' \<noteq> quoted (sprintf_x (demo_Sum256 [1, 2, 3]))
   \<and> status (fst (respondCachedFile noFaults True (sprintf_x (demo_Sum256 [1, 2, 3])) ''*''
        (getIconPath 1) fetched_state)) = 304
   \<and> status (fst (getIconHandler demo_Sum256 noFaults ''alice'' ''*'' fetched_state)) = 304
   \<and> ''W/'' @ quoted (sprintf_x (demo_Sum256 [1, 2, 3])) \<noteq> quoted (sprintf_x (demo_Sum256 [1, 2, 3]))
   \<and> status (fst (respondCachedFile noFaults True (sprintf_x (demo_Sum256 [1, 2, 3]))
        (''W/'' @ quoted (sprintf_x (demo_Sum256 [1, 2, 3]))) (getIconPath 1) fetched_state)) = 304
   \<and> status (fst (respondCachedFile rangeRequest True
        (sprintf_x (demo_Sum256 [1, 2, 3])) [] (getIconPath 1) fetched_state)) = 206
   \<and> body (fst (respondCachedFile rangeRequest True
        (sprintf_x (demo_Sum256 [1, 2, 3])) [] (getIconPath 1) fetched_state)) = Bytes [1]
   \<and> status (fst (respondCachedFile modifiedSinceRequest True
        (sprintf_x (demo_Sum256 [1, 2, 3])) [] (getIconPath 1) fetched_state)) = 304
   \<and> status (fst (respondCachedFile preconditionRequest True
        (sprintf_x (demo_Sum256 [1, 2, 3])) [] (getIconPath 1) fetched_state)) = 412
   \<and> status (fst (respondCachedFile unreadableFiles True
        (sprintf_x (demo_Sum256 [1, 2, 3])) [] (getIconPath 1) fetched_state)) = 404"
proof -
  let ?h = "sprintf_x (demo_Sum256 [1, 2, 3])"
  have f: "files fetched_state (getIconPath 1) = Some [1, 2, 3]"
    by (rule fetched_fields(3))
  have star: "checkIfNoneMatch ''*'' (quoted ?h) = condFalse"
    by (rule checkIfNoneMatch_star)
  have weak: "checkIfNoneMatch (''W/'' @ quoted ?h) (quoted ?h) = condFalse"
    by (rule checkIfNoneMatch_weak [OF sprintf_x_etagChar])
  have ne: "''*'' \<noteq> quoted ?h" "''W/'' @ quoted ?h \<noteq> quoted ?h" "[] \<noteq> quoted ?h"
    by (simp_all add: quoted_def)
  have none: "checkIfNoneMatch [] (quoted ?h) = condNone"
    by (simp add: checkIfNoneMatch_def)
  have 1: "status (fst (respondCachedFile noFaults True ?h ''*'' (getIconPath 1) fetched_state)) = 304"
    using f star ne by (simp add: respondCachedFile_def c_File_def ServeContent_def)
  have 2: "status (fst (getIconHandler demo_Sum256 noFaults ''alice'' ''*'' fetched_state)) = 304"
    using f star ne fetched_fields
    by (simp add: getIconHandler_def getIconFromFile_def getIconHash_def respondCachedFile_def
          c_File_def ServeContent_def Let_def demo_user_def split_beta)
  have 3: "status (fst (respondCachedFile noFaults True ?h (''W/'' @ quoted ?h) (getIconPath 1)
        fetched_state)) = 304"
    using f weak ne(2) by (simp add: respondCachedFile_def c_File_def ServeContent_def)
  have 4: "status (fst (respondCachedFile rangeRequest True ?h [] (getIconPath 1) fetched_state)) = 206"
    "body (fst (respondCachedFile rangeRequest True ?h [] (getIconPath 1) fetched_state)) = Bytes [1]"
    using f none ne(3)
    by (simp_all add: respondCachedFile_def c_File_def ServeContent_def rangeRequest_def noFaults_def)
  have 5: "status (fst (respondCachedFile modifiedSinceRequest True ?h [] (getIconPath 1)
        fetched_state)) = 304"
    using f none ne(3)
    by (simp add: respondCachedFile_def c_File_def ServeContent_def modifiedSinceRequest_def
          noFaults_def)
  have 6: "status (fst (respondCachedFile preconditionRequest True ?h [] (getIconPath 1)
        fetched_state)) = 412"
    using f none ne(3)
    by (simp add: respondCachedFile_def c_File_def ServeContent_def preconditionRequest_def
          noFaults_def)
  have 7: "status (fst (respondCachedFile unreadableFiles True ?h [] (getIconPath 1)
        fetched_state)) = 404"
    using f none ne(3)
    by (simp add: respondCachedFile_def c_File_def unreadableFiles_def noFaults_def)
  from ne 1 2 3 4 5 6 7 show ?thesis by blast
qed

text \<open>
  C3, as amended. The user exists, the hash index holds the entry \<open>h\<close> for the user,
  \<^verbatim>\<open>If-None-Match\<close> is \<open>quoted h\<close>, and \<^verbatim>\<open>os.Stat\<close> finds the user's file in the cache
  directory. Then the handler answers 304 and has begun the transaction, read the row
  of \<^verbatim>\<open>users\<close> and called \<^verbatim>\<open>os.Stat\<close>, nothing more: the icon is read neither from the
  cached file nor from the table \<^verbatim>\<open>icons\<close>, and the state is otherwise unchanged.
\<close>

theorem C3_not_modified_without_reading:
  assumes "\<not> begin_err F" and "\<not> users_err F"
    and "select_user username s = Some user"
    and "iconHashCache s (um_ID user) = Some h"
    and "files s (getIconPath (um_ID user)) \<noteq> None"
    and "\<not> stat_err F (getIconPath (um_ID user))"
  shows "getIconHandler Sum256 F username (quoted h) s =
     (c_NoContent 304,
      s\<lparr>events := events s @ [BeginTx, SelectUserByName username, Stat (getIconPath (um_ID user))]\<rparr>)"
  using assms
  by (auto simp: getIconHandler_def getIconFromFile_def getIconHash_def respondCachedFile_def
        os_Stat_def emit_def Let_def)

theorem C3_not_modified_without_reading_witness:
  "\<not> begin_err noFaults \<and> \<not> users_err noFaults
   \<and> select_user ''alice'' fetched_state = Some (demo_user 1 ''alice'')
   \<and> iconHashCache fetched_state (um_ID (demo_user 1 ''alice''))
        = Some (sprintf_x (demo_Sum256 [1, 2, 3]))
   \<and> files fetched_state (getIconPath (um_ID (demo_user 1 ''alice''))) \<noteq> None
   \<and> \<not> stat_err noFaults (getIconPath (um_ID (demo_user 1 ''alice'')))
   \<and> getIconHandler demo_Sum256 noFaults ''alice'' (quoted (sprintf_x (demo_Sum256 [1, 2, 3])))
        fetched_state =
      (c_NoContent 304,
       fetched_state\<lparr>events := events fetched_state @
          [BeginTx, SelectUserByName ''alice'', Stat (getIconPath (um_ID (demo_user 1 ''alice'')))]\<rparr>)"
proof -
  have id: "um_ID (demo_user 1 ''alice'') = 1"
    by (simp add: demo_user_def)
  have b: "\<not> begin_err noFaults" and u: "\<not> users_err noFaults"
    and st: "\<not> stat_err noFaults (getIconPath (um_ID (demo_user 1 ''alice'')))"
    by simp_all
  have h: "iconHashCache fetched_state (um_ID (demo_user 1 ''alice''))
        = Some (sprintf_x (demo_Sum256 [1, 2, 3]))"
    by (simp add: id fetched_fields)
  have fl: "files fetched_state (getIconPath (um_ID (demo_user 1 ''alice''))) \<noteq> None"
    by (simp add: id fetched_fields)
  show ?thesis
    using C3_not_modified_without_reading [OF b u fetched_fields(1) h fl st, of demo_Sum256]
      b u fetched_fields(1) h fl st
    by simp
qed

text \<open>
  The entry of the hash index alone does not spare the read. After bob's upload, whose
  write of the cache file failed, bob has an entry and no file; the request with the
  matching validator falls through the test of line 184 and runs
  \<^verbatim>\<open>SELECT image FROM icons WHERE user_id = ?\<close> (line 211) before it answers 304.
\<close>

theorem C3_counterexample:
  "select_user ''bob'' uploaded_state = Some (demo_user 2 ''bob'')
   \<and> iconHashCache uploaded_state 2 = Some (sprintf_x (demo_Sum256 [4, 5]))
   \<and> fst (getIconHandler demo_Sum256 noFaults ''bob''
            (quoted (sprintf_x (demo_Sum256 [4, 5]))) uploaded_state) = c_NoContent 304
   \<and> SelectIconByUser 2 \<in> set (new_events uploaded_state
        (snd (getIconHandler demo_Sum256 noFaults ''bob''
            (quoted (sprintf_x (demo_Sum256 [4, 5]))) uploaded_state)))"
  by (simp add: uploaded_state_eq getIconHandler_def getIconFromDB_def getIconHash_def
        select_user_def select_icon_def os_Stat_def os_WriteFile_def getIconPath_def
        respondImage_def new_events_def
        noFaults_def Let_def demo_user_def setIconHash_def emit_def demo_state_def)

text \<open>
  C4. In every state the process can reach from its start by single fetches
  (\<^verbatim>\<open>getIconHandler\<close>), bulk fills (\<^verbatim>\<open>fillUsersResponse\<close>), uploads
  (\<^verbatim>\<open>postIconHandler\<close>) and cache clears (\<^verbatim>\<open>clearIconCache\<close>), whatever their arguments
  and whatever fails in the environment, each entry of the hash index for a user id is
  the digest of the bytes that the user's cached file holds, or of the image that a row
  of that user in \<^verbatim>\<open>icons\<close> holds; and each entry is 64 characters long.
\<close>

theorem C4_hash_index_fresh:
  assumes "reachable Sum256 s"
  shows "hash_index_fresh Sum256 s
     \<and> (\<forall>userID h. iconHashCache s userID = Some h \<longrightarrow> length h = 64)"
proof -
  from assms have inv: "hash_index_fresh Sum256 s"
  proof (induction rule: reachable.induct)
    case (start s)
    then show ?case by (simp add: hash_index_fresh_def)
  next
    case (fetch s F username ifNoneMatch)
    from fetch.IH show ?case by (rule getIconHandler_fresh)
  next
    case (fill s F userModels)
    from fill.IH show ?case by (rule fillUsersResponse_fresh)
  next
    case (upload s F now sess req)
    from upload.IH show ?case by (rule postIconHandler_fresh)
  next
    case (clear s F)
    show ?case by (rule clearIconCache_fresh)
  qed
  then have "\<forall>userID h. iconHashCache s userID = Some h \<longrightarrow> length h = 64"
    unfolding hash_index_fresh_def by (metis length_sprintf_x)
  with inv show ?thesis by simp
qed

theorem C4_hash_index_fresh_witness:
  "reachable demo_Sum256 uploaded_state
   \<and> hash_index_fresh demo_Sum256 uploaded_state
   \<and> iconHashCache uploaded_state 2 = Some (sprintf_x (demo_Sum256 [4, 5]))
   \<and> length (sprintf_x (demo_Sum256 [4, 5])) = 64"
proof -
  have "reachable demo_Sum256 demo_state"
    by (rule reachable.start) (simp add: demo_state_def)
  then have r: "reachable demo_Sum256 uploaded_state"
    unfolding uploaded_state_def by (rule reachable.upload)
  have h: "iconHashCache uploaded_state 2 = Some (sprintf_x (demo_Sum256 [4, 5]))"
    by (simp add: uploaded_state_eq)
  show ?thesis
    using C4_hash_index_fresh [OF r] r h by blast
qed

text \<open>
  C5. An upload answered 201 has appended exactly these events, in this order: the
  begin of the transaction, the \<^verbatim>\<open>DELETE\<close> and the \<^verbatim>\<open>INSERT\<close> on \<^verbatim>\<open>icons\<close>, the
  commit, the write of the user's cache file (followed by a warning in the log when the
  write failed), and the write of the user's entry in the hash index. Afterwards that
  entry is the hex digest of the uploaded bytes, which are what the table returns for
  the user. An upload that ends in any other way leaves the table, the files and the
  hash index as they were.
\<close>

theorem C5_upload_order:
  "(\<forall>r s'. postIconHandler Sum256 F now sess req s = (Responded r, s') \<and> status r = 201 \<longrightarrow>
      (\<exists>userID img. session_userID sess = Some userID \<and> req = Request img
         \<and> new_events s s' =
             [BeginTx, DeleteIcons userID, InsertIcon userID img, Commit,
              WriteFile (getIconPath userID) img]
             @ (if write_fault F (getIconPath userID) = WriteOk then [] else [LogWarn])
             @ [HashSet userID (sprintf_x (Sum256 img))]
         \<and> iconHashCache s' userID = Some (sprintf_x (Sum256 img))
         \<and> select_icon userID s' = Some img))
   \<and> (\<forall>out s'. postIconHandler Sum256 F now sess req s = (out, s')
         \<and> (\<forall>r. out = Responded r \<longrightarrow> status r \<noteq> 201) \<longrightarrow>
         icons_tbl s' = icons_tbl s \<and> files s' = files s \<and> iconHashCache s' = iconHashCache s)"
  using postIconHandler_success [of Sum256 F now sess req s]
    postIconHandler_failure [of Sum256 F now sess req s]
  by blast

theorem C5_upload_order_witness:
  "postIconHandler demo_Sum256 failingWrites 50 demo_session (Request [4, 5]) demo_state =
     (Responded (c_JSON 201 (IconID 2)), uploaded_state)
   \<and> status (c_JSON 201 (IconID 2)) = 201
   \<and> new_events demo_state uploaded_state =
        [BeginTx, DeleteIcons 2, InsertIcon 2 [4, 5], Commit, WriteFile (getIconPath 2) [4, 5],
         LogWarn, HashSet 2 (sprintf_x (demo_Sum256 [4, 5]))]
   \<and> iconHashCache uploaded_state 2 = Some (sprintf_x (demo_Sum256 [4, 5]))
   \<and> select_icon 2 uploaded_state = Some [4, 5]"
proof -
  have st: "status (c_JSON 201 (IconID 2)) = 201"
    by (simp add: c_JSON_def)
  have u: "session_userID demo_session = Some 2"
    by (simp add: session_userID_def demo_session_def)
  have w: "write_fault failingWrites (getIconPath 2) \<noteq> WriteOk"
    by (simp add: failingWrites_def)
  show ?thesis
    using C5_upload_order [of demo_Sum256 failingWrites 50 demo_session "Request [4, 5]" demo_state]
      uploaded_result st u w
    by auto
qed

text \<open>
  C6. The bulk fill of lines 580 to 624 reads the table \<^verbatim>\<open>icons\<close> with one statement,
  the batched query over the ids without an entry in the hash index, when there is
  such an id, and with no statement when every id has an entry; the number of ids
  plays no part. The same holds of \<^verbatim>\<open>fillUsersResponse\<close> as a whole whenever its
  query on \<^verbatim>\<open>themes\<close>, which comes first, does not fail.
\<close>

theorem C6_one_batched_query:
  "filter is_icons_query (new_events s (snd (fillIconHashes Sum256 F userIDs s))) =
     (if \<forall>userID\<in>set userIDs. iconHashCache s userID \<noteq> None then []
      else [SelectIconsIn (uncached s userIDs)])
   \<and> (\<not> themes_err F \<longrightarrow>
        filter is_icons_query (new_events s (snd (fillUsersResponse Sum256 F userModels s))) =
          (if \<forall>userModel\<in>set userModels. iconHashCache s (um_ID userModel) \<noteq> None then []
           else [SelectIconsIn (uncached s (remdups (map um_ID userModels)))]))"
proof -
  have a: "filter is_icons_query (new_events s (snd (fillIconHashes Sum256 F userIDs s))) =
     (if \<forall>userID\<in>set userIDs. iconHashCache s userID \<noteq> None then []
      else [SelectIconsIn (uncached s userIDs)])"
    using fillIconHashes_events [of Sum256 F userIDs s] uncached_empty_iff [of s userIDs]
    by (auto simp: new_events_def)
  have b: "filter is_icons_query (new_events s (snd (fillUsersResponse Sum256 F userModels s))) =
          (if \<forall>userModel\<in>set userModels. iconHashCache s (um_ID userModel) \<noteq> None then []
           else [SelectIconsIn (uncached s (remdups (map um_ID userModels)))])"
    if "\<not> themes_err F"
    using fillUsersResponse_events [OF that, of Sum256 userModels s]
      uncached_empty_iff [of s "remdups (map um_ID userModels)"]
    by (auto simp: new_events_def)
  from a b show ?thesis by blast
qed

theorem C6_one_batched_query_witness:
  "\<not> themes_err noFaults
   \<and> filter is_icons_query (new_events demo_state
        (snd (fillUsersResponse demo_Sum256 noFaults
           [demo_user 1 ''alice'', demo_user 2 ''bob'', demo_user 1 ''alice''] demo_state)))
       = [SelectIconsIn [2, 1]]
   \<and> filter is_icons_query (new_events demo_state
        (snd (fillIconHashes demo_Sum256 noFaults [] demo_state))) = []
   \<and> filter is_icons_query (new_events fetched_state
        (snd (fillUsersResponse demo_Sum256 noFaults
           [demo_user 1 ''alice'', demo_user 1 ''alice''] fetched_state))) = []"
proof -
  have t: "\<not> themes_err noFaults"
    by (simp add: noFaults_def)
  have h: "iconHashCache demo_state = Map.empty"
    by (simp add: demo_state_def)
  have u: "uncached demo_state [2, 1] = [2, 1]"
    by (simp add: uncached_def h)
  have r: "remdups (map um_ID [demo_user 1 ''alice'', demo_user 2 ''bob'', demo_user 1 ''alice''])
             = [2, 1]"
    by (simp add: demo_user_def)
  have c: "\<not> (\<forall>userModel\<in>set [demo_user 1 ''alice'', demo_user 2 ''bob'', demo_user 1 ''alice''].
                iconHashCache demo_state (um_ID userModel) \<noteq> None)"
    by (auto simp: h)
  have c': "\<forall>userModel\<in>set [demo_user 1 ''alice'', demo_user 1 ''alice''].
                iconHashCache fetched_state (um_ID userModel) \<noteq> None"
    using fetched_fields(2) by (simp add: demo_user_def)
  show ?thesis
    using t c c' C6_one_batched_query [of demo_state demo_Sum256 noFaults "[]"
      "[demo_user 1 ''alice'', demo_user 2 ''bob'', demo_user 1 ''alice'']"]
      C6_one_batched_query [of fetched_state demo_Sum256 noFaults "[]"
      "[demo_user 1 ''alice'', demo_user 1 ''alice'']"]
    unfolding r u by auto
qed

text \<open>
  C7. When neither the query on \<^verbatim>\<open>themes\<close> nor the batched query on \<^verbatim>\<open>icons\<close> fails,
  the bulk fill returns a result. The map of hashes it builds (lines 580 to 624) has an
  entry for every requested id, and \<^verbatim>\<open>fillUsersResponse\<close> returns one user per user
  model, in order and with the model's id; no \<^verbatim>\<open>IconHash\<close> is empty once
  \<^verbatim>\<open>fallbackImageHash\<close> has been computed. An id without an entry in the hash index
  and without a row in \<^verbatim>\<open>icons\<close> gets \<^verbatim>\<open>fallbackImageHash\<close> in the result, and still
  has no entry in the hash index afterwards.
\<close>

theorem C7_fill_complete:
  assumes "\<not> themes_err F" and "\<not> icons_err F"
  shows "(\<exists>M s'. fillIconHashes Sum256 F userIDs s = (Inr M, s')
       \<and> (\<forall>userID\<in>set userIDs. M userID \<noteq> None)
       \<and> (\<forall>userID\<in>set userIDs. iconHashCache s userID = None
            \<and> userID \<notin> icon_user_id ` set (icons_tbl s) \<longrightarrow>
            M userID = Some (fallbackImageHash s) \<and> iconHashCache s' userID = None))
     \<and> (\<exists>users s'. fillUsersResponse Sum256 F userModels s = (Inr users, s')
       \<and> map u_ID users = map um_ID userModels
       \<and> (fallbackImageHash s \<noteq> [] \<longrightarrow> (\<forall>u\<in>set users. u_IconHash u \<noteq> []))
       \<and> (\<forall>i<length userModels.
            iconHashCache s (um_ID (userModels ! i)) = None
            \<and> um_ID (userModels ! i) \<notin> icon_user_id ` set (icons_tbl s) \<longrightarrow>
            u_IconHash (users ! i) = fallbackImageHash s
            \<and> iconHashCache s' (um_ID (userModels ! i)) = None))"
proof (rule conjI)
  show "\<exists>M s'. fillIconHashes Sum256 F userIDs s = (Inr M, s')
       \<and> (\<forall>userID\<in>set userIDs. M userID \<noteq> None)
       \<and> (\<forall>userID\<in>set userIDs. iconHashCache s userID = None
            \<and> userID \<notin> icon_user_id ` set (icons_tbl s) \<longrightarrow>
            M userID = Some (fallbackImageHash s) \<and> iconHashCache s' userID = None)"
    by (rule fillIconHashes_complete [OF assms(2)])
next
  show "\<exists>users s'. fillUsersResponse Sum256 F userModels s = (Inr users, s')
       \<and> map u_ID users = map um_ID userModels
       \<and> (fallbackImageHash s \<noteq> [] \<longrightarrow> (\<forall>u\<in>set users. u_IconHash u \<noteq> []))
       \<and> (\<forall>i<length userModels.
            iconHashCache s (um_ID (userModels ! i)) = None
            \<and> um_ID (userModels ! i) \<notin> icon_user_id ` set (icons_tbl s) \<longrightarrow>
            u_IconHash (users ! i) = fallbackImageHash s
            \<and> iconHashCache s' (um_ID (userModels ! i)) = None)"
  proof (cases "userModels = []")
    case True
    then show ?thesis by (simp add: fillUsersResponse_def)
  next
    case False
    let ?ids = "remdups (map um_ID userModels)"
    let ?s1 = "emit (SelectThemesIn ?ids) s"
    let ?T = "themeMap_of (select_themes ?ids s)"
    obtain M s0 where blk: "fillIconHashes Sum256 F ?ids ?s1 = (Inr M, s0)"
      and res: "fillUsersResponse Sum256 F userModels s =
         (Inr (map (buildUser ?T M (fallbackImageHash s)) userModels), s0)"
      using fillUsersResponse_result [OF assms False, of Sum256 s] by blast
    from fillIconHashes_complete [OF assms(2), of Sum256 ?ids ?s1] blk
    have fb: "\<And>userID. userID \<in> set ?ids \<Longrightarrow> iconHashCache s userID = None
          \<Longrightarrow> userID \<notin> icon_user_id ` set (icons_tbl s)
          \<Longrightarrow> M userID = Some (fallbackImageHash s) \<and> iconHashCache s0 userID = None"
      by auto
    have ids: "um_ID (userModels ! i) \<in> set ?ids" if "i < length userModels" for i
      using that by simp
    have "\<forall>u\<in>set (map (buildUser ?T M (fallbackImageHash s)) userModels). u_IconHash u \<noteq> []"
      if "fallbackImageHash s \<noteq> []"
      using that by (auto split: option.splits)
    moreover have "u_IconHash (map (buildUser ?T M (fallbackImageHash s)) userModels ! i)
            = fallbackImageHash s \<and> iconHashCache s0 (um_ID (userModels ! i)) = None"
      if "i < length userModels" "iconHashCache s (um_ID (userModels ! i)) = None"
        "um_ID (userModels ! i) \<notin> icon_user_id ` set (icons_tbl s)" for i
      using fb [OF ids [OF that(1)] that(2,3)] that(1) by simp
    ultimately show ?thesis
      unfolding res by (simp add: comp_def)
  qed
qed

theorem C7_fill_complete_witness:
  "\<not> themes_err noFaults \<and> \<not> icons_err noFaults
   \<and> (\<exists>users s'. fillUsersResponse demo_Sum256 noFaults
          [demo_user 1 ''alice'', demo_user 2 ''bob''] demo_state = (Inr users, s')
        \<and> map u_ID users = [1, 2]
        \<and> u_IconHash (users ! 1) = fallbackImageHash demo_state
        \<and> iconHashCache s' 2 = None)"
proof -
  have t: "\<not> themes_err noFaults" and i: "\<not> icons_err noFaults"
    by simp_all
  have ids: "map um_ID [demo_user 1 ''alice'', demo_user 2 ''bob''] = [1, 2]"
    "um_ID ([demo_user 1 ''alice'', demo_user 2 ''bob''] ! 1) = 2"
    by (simp_all add: demo_user_def)
  from C7_fill_complete [OF t i, of demo_Sum256 "[]" demo_state
      "[demo_user 1 ''alice'', demo_user 2 ''bob'']"]
  obtain users s' where r: "fillUsersResponse demo_Sum256 noFaults
          [demo_user 1 ''alice'', demo_user 2 ''bob''] demo_state = (Inr users, s')"
    and m: "map u_ID users = map um_ID [demo_user 1 ''alice'', demo_user 2 ''bob'']"
    and f: "\<forall>i<length [demo_user 1 ''alice'', demo_user 2 ''bob''].
            iconHashCache demo_state (um_ID ([demo_user 1 ''alice'', demo_user 2 ''bob''] ! i)) = None
            \<and> um_ID ([demo_user 1 ''alice'', demo_user 2 ''bob''] ! i)
                 \<notin> icon_user_id ` set (icons_tbl demo_state) \<longrightarrow>
            u_IconHash (users ! i) = fallbackImageHash demo_state
            \<and> iconHashCache s' (um_ID ([demo_user 1 ''alice'', demo_user 2 ''bob''] ! i)) = None"
    by blast
  from f [rule_format, of 1] ids(2) demo_fill_facts(4,5)
  have "u_IconHash (users ! 1) = fallbackImageHash demo_state \<and> iconHashCache s' 2 = None"
    by simp
  with r m ids(1) t i show ?thesis by auto
qed

text \<open>
  C8, as amended. The table \<^verbatim>\<open>icons\<close> holds at most one row per user, and neither
  query fails. For every pair \<open>icon\<close> that the batched query returns, the bulk fill
  stores the digest of the image in the hash index and gives it as \<^verbatim>\<open>IconHash\<close> to the
  users of that id in the result, of which there is one at least. It writes the image
  to the user's cache file only where \<^verbatim>\<open>os.Stat\<close> reports that no such file exists
  (the file then holds the image when the write succeeds); a file that exists already
  is left as it is, and so is the path when \<^verbatim>\<open>os.Stat\<close> fails in another way.
\<close>

theorem C8_fill_returned_pairs:
  assumes "\<not> themes_err F" and "\<not> icons_err F"
    and "distinct (map icon_user_id (icons_tbl s))"
    and "icon \<in> set (select_icons (uncached s (remdups (map um_ID userModels))) s)"
  shows "\<exists>users s'. fillUsersResponse Sum256 F userModels s = (Inr users, s')
     \<and> iconHashCache s' (im_UserID icon) = Some (sprintf_x (Sum256 (im_Image icon)))
     \<and> im_UserID icon \<in> u_ID ` set users
     \<and> (\<forall>u\<in>set users. u_ID u = im_UserID icon \<longrightarrow>
           u_IconHash u = sprintf_x (Sum256 (im_Image icon)))
     \<and> (files s (getIconPath (im_UserID icon)) = None
          \<and> \<not> stat_err F (getIconPath (im_UserID icon))
          \<and> write_fault F (getIconPath (im_UserID icon)) = WriteOk \<longrightarrow>
          files s' (getIconPath (im_UserID icon)) = Some (im_Image icon))
     \<and> (files s (getIconPath (im_UserID icon)) \<noteq> None
          \<or> stat_err F (getIconPath (im_UserID icon)) \<longrightarrow>
          files s' (getIconPath (im_UserID icon)) = files s (getIconPath (im_UserID icon)))"
proof -
  let ?ids = "remdups (map um_ID userModels)"
  let ?s1 = "emit (SelectThemesIn ?ids) s"
  let ?T = "themeMap_of (select_themes ?ids s)"
  let ?un = "uncached s ?ids"
  let ?D = "map_of (rev (digests Sum256 (select_icons ?un s)))"
  let ?p = "getIconPath (im_UserID icon)"
  from assms(4) have un: "?un \<noteq> []" and mem: "im_UserID icon \<in> set ?un"
    by (auto simp: select_icons_mem)
  then have ne: "userModels \<noteq> []" by (auto simp: uncached_def)
  from mem have inids: "im_UserID icon \<in> set ?ids" and nohash: "iconHashCache s (im_UserID icon) = None"
    by (auto simp: uncached_def)
  obtain M s0 where blk: "fillIconHashes Sum256 F ?ids ?s1 = (Inr M, s0)"
    and res: "fillUsersResponse Sum256 F userModels s =
       (Inr (map (buildUser ?T M (fallbackImageHash s)) userModels), s0)"
    using fillUsersResponse_result [OF assms(1,2) ne, of Sum256 s] by blast
  from fillIconHashes_result [OF assms(2), of Sum256 ?ids ?s1,
      unfolded uncached_emit select_icons_emit emit_fields] blk
  have M: "\<And>userID. M userID =
          (if userID \<in> set ?ids
           then Some (case iconHashCache s userID of
                        Some h \<Rightarrow> h
                      | None \<Rightarrow> (case ?D userID of Some d \<Rightarrow> d | None \<Rightarrow> fallbackImageHash s))
           else None)"
    and h: "iconHashCache s0 = iconHashCache s ++ ?D"
    by simp_all
  have D: "?D (im_UserID icon) = Some (sprintf_x (Sum256 (im_Image icon)))"
    by (rule digests_select_unique [OF assms(3,4)])
  have s0: "s0 = snd (snd (storeIcons Sum256 F (select_icons ?un s)
        (fst (collectUncached ?ids ?s1 Map.empty [])) {} (emit (SelectIconsIn ?un) ?s1)))"
    using fillIconHashes_state [OF assms(2), of ?s1 ?ids Sum256] un blk by simp
  have hash: "iconHashCache s0 (im_UserID icon) = Some (sprintf_x (Sum256 (im_Image icon)))"
    using h D by (simp add: map_add_def)
  have Mi: "M (im_UserID icon) = Some (sprintf_x (Sum256 (im_Image icon)))"
    using M [of "im_UserID icon"] inids nohash D by simp
  have inres: "im_UserID icon \<in> u_ID ` set (map (buildUser ?T M (fallbackImageHash s)) userModels)"
    using inids by (auto simp: image_iff)
  have val: "\<forall>u\<in>set (map (buildUser ?T M (fallbackImageHash s)) userModels).
      u_ID u = im_UserID icon \<longrightarrow> u_IconHash u = sprintf_x (Sum256 (im_Image icon))"
    using Mi by auto
  have wr: "files s0 ?p = Some (im_Image icon)"
    if "files s ?p = None" "\<not> stat_err F ?p" "write_fault F ?p = WriteOk"
    unfolding s0
    using storeIcons_files_written [OF assms(4) select_icons_distinct [OF assms(3)], of "emit (SelectIconsIn ?un) ?s1" F Sum256]
      that by simp
  have keep: "files s0 ?p = files s ?p" if "files s ?p \<noteq> None \<or> stat_err F ?p"
    unfolding s0
    using storeIcons_files_existing [of "emit (SelectIconsIn ?un) ?s1" ?p Sum256 F]
      storeIcons_files_stat_err [of F ?p Sum256 _ _ _ "emit (SelectIconsIn ?un) ?s1"] that
    by auto
  show ?thesis
    unfolding res using hash inres val wr keep by simp
qed

theorem C8_fill_returned_pairs_witness:
  "\<not> themes_err noFaults \<and> \<not> icons_err noFaults
   \<and> distinct (map icon_user_id (icons_tbl demo_state))
   \<and> \<lparr>im_UserID = 1, im_Image = [1, 2, 3]\<rparr>
        \<in> set (select_icons (uncached demo_state
             (remdups (map um_ID [demo_user 1 ''alice'', demo_user 2 ''bob'']))) demo_state)
   \<and> (\<exists>users s'. fillUsersResponse demo_Sum256 noFaults
          [demo_user 1 ''alice'', demo_user 2 ''bob''] demo_state = (Inr users, s')
        \<and> iconHashCache s' 1 = Some (sprintf_x (demo_Sum256 [1, 2, 3]))
        \<and> files s' (getIconPath 1) = Some [1, 2, 3])"
proof -
  have t: "\<not> themes_err noFaults" and i: "\<not> icons_err noFaults"
    by simp_all
  have m: "\<lparr>im_UserID = 1, im_Image = [1, 2, 3]\<rparr>
        \<in> set (select_icons (uncached demo_state
             (remdups (map um_ID [demo_user 1 ''alice'', demo_user 2 ''bob'']))) demo_state)"
    unfolding demo_fill_facts(2) by (rule demo_fill_facts(3))
  show ?thesis
    using C8_fill_returned_pairs [OF t i demo_fill_facts(1) m, of demo_Sum256]
      t i demo_fill_facts(1,6) m
    by auto
qed

text \<open>
  The write-through is not unconditional: in \<open>stale_state\<close> the batched query returns
  alice's image \<open>[1, 2, 3]\<close>, alice's file exists and holds \<open>[9]\<close>, and the bulk fill
  neither writes the file nor changes it (the test of line 613).
\<close>

theorem C8_counterexample:
  "\<lparr>im_UserID = 1, im_Image = [1, 2, 3]\<rparr>
      \<in> set (select_icons (uncached stale_state [1]) stale_state)
   \<and> files (snd (fillUsersResponse demo_Sum256 noFaults [demo_user 1 ''alice''] stale_state))
        (getIconPath 1) = Some [9]
   \<and> WriteFile (getIconPath 1) [1, 2, 3]
        \<notin> set (events (snd (fillUsersResponse demo_Sum256 noFaults [demo_user 1 ''alice''] stale_state)))"
  by (simp add: stale_state_def fillUsersResponse_def fillIconHashes_def sqlx_In_def
        select_icons_def uncached_def getIconHash_def os_Stat_def getIconPath_def
        noFaults_def Let_def demo_user_def setIconHash_def emit_def demo_state_def)



text \<open>
  C10. For the empty list of user models \<^verbatim>\<open>fillUsersResponse\<close> returns the empty list
  of users without an error and hands back the state it was given: no event is
  appended, so neither \<^verbatim>\<open>themes\<close> nor \<^verbatim>\<open>icons\<close> is queried, and the hash index and the
  cached files are as before.
\<close>

theorem C10_fill_empty:
  "fillUsersResponse Sum256 F [] s = (Inr [], s)"
  by (simp add: fillUsersResponse_def)

end
